theory Spec2Isabelle
  imports Complex_Main
begin

section \<open>Python values\<close>

text \<open>
  The benchmark engine is \<^verbatim>\<open>bench_core.py\<close>. Python strings are modelled as HOL strings whose
  characters are the code points below 256; a character with code 128 or more is not ASCII.
  Python floats are modelled as real numbers, without NaN and infinity, and Python integers
  as \<open>int\<close>. A float operation rounds its exact result to the nearest double; the rounding
  is written out, as \<open>fl\<close>, where it decides a discrete result, which is the index that
  \<^verbatim>\<open>percentile\<close> computes. Elsewhere the rounding only changes the last bit of a
  continuous value, and the operation is taken exact. An exception is a value of \<open>error\<close>: the functions below raise
  \<^verbatim>\<open>ValueError\<close> with several messages, and \<^verbatim>\<open>UnicodeEncodeError\<close> from
  \<^verbatim>\<open>str.encode("ascii")\<close>.
\<close>

datatype error = ValueError string | UnicodeEncodeError

text \<open>\<^verbatim>\<open>int(x)\<close> on a float drops the fraction: it rounds toward zero.\<close>

definition py_int :: "real \<Rightarrow> int" where
  "py_int x = (if 0 \<le> x then \<lfloor>x\<rfloor> else \<lceil>x\<rceil>)"

text \<open>
  The nearest double of a real number (IEEE 754 binary64, round to nearest, ties to even):
  a multiple of \<open>2\<^sup>e\<^sup>-\<^sup>5\<^sup>2\<close> for \<open>e\<close> the binary exponent of the number, and of
  \<open>2\<^sup>-\<^sup>1\<^sup>0\<^sup>7\<^sup>4\<close> below the normal range. A magnitude beyond the largest double, which
  rounds to infinity, is outside the model.
\<close>

definition round_half_even :: "real \<Rightarrow> int" where
  "round_half_even x =
     (let f = \<lfloor>x\<rfloor>
      in if x - real_of_int f < 1 / 2 then f
         else if 1 / 2 < x - real_of_int f then f + 1
         else if even f then f else f + 1)"

definition fl :: "real \<Rightarrow> real" where
  "fl x =
     (if x = 0 then 0
      else (let e = max \<lfloor>log 2 \<bar>x\<bar>\<rfloor> (- 1022) - 52
            in real_of_int (round_half_even (x / 2 powr real_of_int e)) * 2 powr real_of_int e))"

section \<open>The Request Builder\<close>

subsection \<open>\<^verbatim>\<open>urllib.parse.urlparse\<close>\<close>

text \<open>
  \<^verbatim>\<open>build_http_get\<close> starts with \<^verbatim>\<open>urlparse(url)\<close> of the standard library. The model
  follows \<^verbatim>\<open>urlsplit\<close> and \<^verbatim>\<open>urlparse\<close> of CPython 3.11 on a \<^verbatim>\<open>str\<close> argument,
  step by step. Two library checks are not unfolded:
  \<^item> \<^verbatim>\<open>_check_bracketed_host\<close> validates the text between \<open>[\<close> and \<open>]\<close> with the
    \<^verbatim>\<open>ipaddress\<close> module; it is the parameter \<open>bracketed_ok\<close> of the model (true when the
    library accepts the text);
  \<^item> \<^verbatim>\<open>_checknetloc\<close> rejects a non-ASCII authority whose NFKC normal form contains one of
    \<open>/?#@:\<close>; no code point below 256 normalises to such a text, so the check never fails
    on the strings modelled here.
\<close>

definition scheme_chars :: string where
  "scheme_chars = ''abcdefghijklmnopqrstuvwxyzABCDEFGHIJKLMNOPQRSTUVWXYZ0123456789+-.''"

definition ascii_letters :: string where
  "ascii_letters = ''abcdefghijklmnopqrstuvwxyzABCDEFGHIJKLMNOPQRSTUVWXYZ''"

definition ascii_digits :: string where
  "ascii_digits = ''0123456789''"

definition uses_params :: "string list" where
  "uses_params = ['''', ''ftp'', ''hdl'', ''prospero'', ''http'', ''imap'', ''https'', ''shttp'',
                  ''rtsp'', ''rtsps'', ''rtspu'', ''sip'', ''sips'', ''mms'', ''sftp'', ''tel'']"

text \<open>\<^verbatim>\<open>str.lower\<close> on a code point below 256: A-Z and the upper-case letters of Latin-1.\<close>

definition lower_char :: "char \<Rightarrow> char" where
  "lower_char c =
     (let n = (of_char c :: nat)
      in if (65 \<le> n \<and> n \<le> 90) \<or> (192 \<le> n \<and> n \<le> 222 \<and> n \<noteq> 215) then char_of (n + 32) else c)"

definition lower :: "string \<Rightarrow> string" where
  "lower s = map lower_char s"

definition isascii :: "string \<Rightarrow> bool" where
  "isascii s = list_all (\<lambda>c. (of_char c :: nat) < 128) s"

text \<open>
  \<^verbatim>\<open>s.partition(sep)\<close> for a one-character separator: the text before the first separator,
  whether there is one, and the text after it.
\<close>

definition partition_at :: "char \<Rightarrow> string \<Rightarrow> string \<times> bool \<times> string" where
  "partition_at sep s =
     (takeWhile (\<lambda>c. c \<noteq> sep) s, sep \<in> set s, drop 1 (dropWhile (\<lambda>c. c \<noteq> sep) s))"

text \<open>The third component of \<^verbatim>\<open>s.rpartition(sep)\<close>: the text after the last separator.\<close>

definition after_last :: "char \<Rightarrow> string \<Rightarrow> string" where
  "after_last sep s = rev (takeWhile (\<lambda>c. c \<noteq> sep) (rev s))"

text \<open>\<^verbatim>\<open>url.lstrip(_WHATWG_C0_CONTROL_OR_SPACE)\<close>, then the removal of tab, CR and LF.\<close>

definition strip_unsafe :: "string \<Rightarrow> string" where
  "strip_unsafe url =
     filter (\<lambda>c. c \<noteq> CHR 0x09 \<and> c \<noteq> CHR 0x0D \<and> c \<noteq> CHR 0x0A)
       (dropWhile (\<lambda>c. (of_char c :: nat) \<le> 32) url)"

text \<open>
  The scheme: \<^verbatim>\<open>i = url.find(':')\<close>; when \<open>i > 0\<close>, the first character is an ASCII letter
  and every character before the colon is in \<^verbatim>\<open>scheme_chars\<close>, the scheme is that prefix in
  lower case and the URL continues after the colon.
\<close>

definition split_scheme :: "string \<Rightarrow> string \<times> string" where
  "split_scheme url =
     (let (pre, found, rest) = partition_at CHR '':'' url
      in if found \<and> pre \<noteq> [] \<and> hd pre \<in> set ascii_letters \<and> list_all (\<lambda>c. c \<in> set scheme_chars) pre
         then (lower pre, rest) else ('''', url))"

text \<open>\<^verbatim>\<open>_splitnetloc(url, 2)\<close>: the authority runs to the first of \<open>/\<close>, \<open>?\<close>, \<open>#\<close>.\<close>

definition splitnetloc :: "string \<Rightarrow> string \<times> string" where
  "splitnetloc url =
     (let body = drop 2 url
      in (takeWhile (\<lambda>c. c \<notin> set ''/?#'') body, dropWhile (\<lambda>c. c \<notin> set ''/?#'') body))"

text \<open>
  \<^verbatim>\<open>_splitparams(url)\<close>: the parameters start at the first \<open>;\<close> of the last path segment.
\<close>

definition splitparams :: "string \<Rightarrow> string \<times> string" where
  "splitparams url =
     (if CHR ''/'' \<in> set url
      then (let last_segment = after_last CHR ''/'' url;
                head = take (length url - length last_segment) url;
                (pre, found, rest) = partition_at CHR '';'' last_segment
            in if found then (head @ pre, rest) else (url, ''''))
      else (let (pre, found, rest) = partition_at CHR '';'' url in (pre, rest)))"

record parse_result =
  scheme :: string
  netloc :: string
  path :: string
  params :: string
  query :: string
  fragment :: string

definition urlparse :: "(string \<Rightarrow> bool) \<Rightarrow> string \<Rightarrow> error + parse_result" where
  "urlparse bracketed_ok url0 =
     (let (scheme, url1) = split_scheme (strip_unsafe url0);
          (netloc, url2) = (if take 2 url1 = ''//'' then splitnetloc url1 else ('''', url1));
          has_open = CHR ''['' \<in> set netloc;
          has_close = CHR '']'' \<in> set netloc
      in if (has_open \<and> \<not> has_close) \<or> (has_close \<and> \<not> has_open)
         then Inl (ValueError ''Invalid IPv6 URL'')
         else if has_open \<and> has_close \<and>
                 \<not> bracketed_ok (fst (partition_at CHR '']'' (snd (snd (partition_at CHR ''['' netloc)))))
         then Inl (ValueError ''invalid bracketed host'')
         else
           (let (url3, _, fragment) = partition_at CHR ''#'' url2;
                (url4, _, query) = partition_at CHR ''?'' url3;
                (url5, params) = (if scheme \<in> set uses_params \<and> CHR '';'' \<in> set url4
                                  then splitparams url4 else (url4, ''''))
            in Inr \<lparr> scheme = scheme, netloc = netloc, path = url5, params = params,
                     query = query, fragment = fragment \<rparr>))"

text \<open>
  \<^verbatim>\<open>_hostinfo\<close>: the host and the port text of the authority, after the user information.
  An empty port text is \<^verbatim>\<open>None\<close>.
\<close>

definition hostinfo :: "parse_result \<Rightarrow> string \<times> string option" where
  "hostinfo p =
     (let info = after_last CHR ''@'' (netloc p);
          (_, have_open_br, bracketed) = partition_at CHR ''['' info;
          (host, port) =
            (if have_open_br
             then (let (h, _, after) = partition_at CHR '']'' bracketed;
                       (_, _, prt) = partition_at CHR '':'' after
                   in (h, prt))
             else (let (h, _, prt) = partition_at CHR '':'' info in (h, prt)))
      in (host, if port = [] then None else Some port))"

text \<open>The \<^verbatim>\<open>hostname\<close> property: lower case up to a zone separator \<open>%\<close>, or \<^verbatim>\<open>None\<close>.\<close>

definition hostname :: "parse_result \<Rightarrow> string option" where
  "hostname p =
     (let host = fst (hostinfo p)
      in if host = [] then None
         else (let (h, percent, zone) = partition_at CHR ''%'' host
               in Some (lower h @ (if percent then ''%'' else '''') @ zone)))"

text \<open>
  \<^verbatim>\<open>int(port)\<close> on a text of ASCII digits. CPython 3.11 refuses a decimal text of more than
  4300 digits.
\<close>

definition digits_to_int :: "string \<Rightarrow> int" where
  "digits_to_int s = foldl (\<lambda>n c. 10 * n + (int (of_char c) - 48)) 0 s"

definition port :: "parse_result \<Rightarrow> error + int option" where
  "port p =
     (case snd (hostinfo p) of
        None \<Rightarrow> Inr None
      | Some txt \<Rightarrow>
          if \<not> list_all (\<lambda>c. c \<in> set ascii_digits) txt
          then Inl (ValueError ''Port could not be cast to integer value'')
          else if 4300 < length txt
          then Inl (ValueError ''Exceeds the limit (4300 digits) for integer string conversion'')
          else if \<not> (0 \<le> digits_to_int txt \<and> digits_to_int txt \<le> 65535)
          then Inl (ValueError ''Port out of range 0-65535'')
          else Inr (Some (digits_to_int txt)))"

subsection \<open>\<^verbatim>\<open>build_http_get\<close>\<close>

definition crlf :: string where
  "crlf = [CHR 0x0D, CHR 0x0A]"

text \<open>
  The source tests the scheme first, then reads \<^verbatim>\<open>hostname\<close> and \<^verbatim>\<open>port\<close> (which may
  raise), builds the request text and encodes it as ASCII last. \<^verbatim>\<open>x or d\<close> takes the
  default \<open>d\<close> when \<open>x\<close> is \<^verbatim>\<open>None\<close>, an empty string or the number 0.
\<close>

definition build_http_get :: "(string \<Rightarrow> bool) \<Rightarrow> string \<Rightarrow> error + (string \<times> int \<times> string)" where
  "build_http_get bracketed_ok url =
     (case urlparse bracketed_ok url of
        Inl e \<Rightarrow> Inl e
      | Inr parsed_url \<Rightarrow>
          if scheme parsed_url \<noteq> [] \<and> lower (scheme parsed_url) \<noteq> ''http''
          then Inl (ValueError ''Only plain HTTP is supported'')
          else
            (let host = (case hostname parsed_url of None \<Rightarrow> ''127.0.0.1'' | Some h \<Rightarrow> h)
             in case port parsed_url of
                  Inl e \<Rightarrow> Inl e
                | Inr port_opt \<Rightarrow>
                    (let port_number = (case port_opt of None \<Rightarrow> 80 | Some n \<Rightarrow> if n = 0 then 80 else n);
                         path0 = (if path parsed_url = [] then ''/'' else path parsed_url);
                         path1 = (if query parsed_url \<noteq> [] then path0 @ ''?'' @ query parsed_url else path0);
                         host_header = (if netloc parsed_url \<noteq> [] then netloc parsed_url else host);
                         request_text = ''GET '' @ path1 @ '' HTTP/1.1'' @ crlf
                                        @ ''Host: '' @ host_header @ crlf
                                        @ ''Connection: close'' @ crlf
                                        @ crlf
                     in if isascii request_text then Inr (host, port_number, request_text)
                        else Inl UnicodeEncodeError)))"

section \<open>The Single-Request Executor\<close>

text \<open>
  The executor suspends at \<^verbatim>\<open>await\<close>. What the network does at a suspension point is a value
  of \<open>awaited\<close>: the awaited operation completes after a duration with a result, raises an
  exception (a refused connection, a reset, a broken pipe), or never completes. Durations are
  seconds on the clock of \<^verbatim>\<open>time.perf_counter\<close>.
\<close>

datatype 'a awaited = Completes real 'a | Raises | Never

text \<open>
  \<^verbatim>\<open>asyncio.wait_for(aw, timeout)\<close>: the result of \<open>aw\<close> when it arrives before the timeout,
  its exception when it raises, and \<^verbatim>\<open>TimeoutError\<close> otherwise. A \<open>wait_for\<close> never blocks
  for ever.
\<close>

definition wait_for :: "'a awaited \<Rightarrow> real \<Rightarrow> 'a awaited" where
  "wait_for aw timeout =
     (case aw of
        Completes d v \<Rightarrow> if d < timeout then Completes d v else Raises
      | Raises \<Rightarrow> Raises
      | Never \<Rightarrow> Raises)"

text \<open>
  One connection attempt, as the network answers it: the four operations that
  \<^verbatim>\<open>one_request\<close> awaits. \<open>reads k\<close> is the \<open>k\<close>-th call of \<^verbatim>\<open>reader.read(65536)\<close> and
  gives the length of the chunk; length 0 is the end of the stream.
\<close>

record connection =
  open_connection :: "unit awaited"
  drain :: "unit awaited"
  reads :: "nat \<Rightarrow> nat awaited"
  wait_closed :: "unit awaited"

text \<open>
  The loop \<^verbatim>\<open>while True: chunk = await wait_for(reader.read(65536), timeout)\<close>. It ends at an
  empty chunk with the time spent so far, or at an exception; a peer that keeps sending
  chunks in time keeps it running, which is the value \<open>None\<close>.
\<close>

datatype read_result = Eof real | ReadException

partial_function (option) read_until_eof :: "(nat \<Rightarrow> nat awaited) \<Rightarrow> real \<Rightarrow> nat \<Rightarrow> real \<Rightarrow> read_result option" where
  "read_until_eof rd timeout k elapsed =
     (case wait_for (rd k) timeout of
        Completes d chunk \<Rightarrow>
          if chunk = 0 then Some (Eof (elapsed + d))
          else read_until_eof rd timeout (Suc k) (elapsed + d)
      | Raises \<Rightarrow> Some ReadException
      | Never \<Rightarrow> None)"

text \<open>
  \<^verbatim>\<open>one_request\<close> returns the latency in seconds, or \<open>-1\<close> when an exception was caught;
  \<open>None\<close> is a call that never returns. Only the connection and each read are wrapped in
  \<^verbatim>\<open>wait_for\<close>; \<^verbatim>\<open>writer.drain()\<close> and \<^verbatim>\<open>writer.wait_closed()\<close> are awaited as they are,
  and an exception of \<^verbatim>\<open>wait_closed\<close> is swallowed. The latency is the sum of the
  durations of the awaited operations; the time that an operation takes before it raises is
  not counted.
\<close>

definition one_request :: "connection \<Rightarrow> real \<Rightarrow> real option" where
  "one_request conn timeout =
     (case wait_for (open_connection conn) timeout of
        Raises \<Rightarrow> Some (- 1)
      | Never \<Rightarrow> None
      | Completes d1 _ \<Rightarrow>
          (case drain conn of
             Raises \<Rightarrow> Some (- 1)
           | Never \<Rightarrow> None
           | Completes d2 _ \<Rightarrow>
               (case read_until_eof (reads conn) timeout 0 (d1 + d2) of
                  None \<Rightarrow> None
                | Some ReadException \<Rightarrow> Some (- 1)
                | Some (Eof t) \<Rightarrow>
                    (case wait_closed conn of
                       Never \<Rightarrow> None
                     | Raises \<Rightarrow> Some t
                     | Completes d3 _ \<Rightarrow> Some (t + d3)))))"

section \<open>The Latency Summarizer\<close>

text \<open>
  \<^verbatim>\<open>percentile\<close> indexes the list it is given; its parameter is named
  \<^verbatim>\<open>sorted_values\<close>, and the function does not sort. The index lies in the list whenever the
  list is not empty, so the read never raises.
\<close>

text \<open>
  The index, for a list of \<open>n\<close> values: \<^verbatim>\<open>len(sorted_values) - 1\<close> becomes a float, the
  product is a float and the sum is a float, each rounded; \<^verbatim>\<open>int\<close>, \<^verbatim>\<open>min\<close> and
  \<^verbatim>\<open>max\<close> are exact.
\<close>

definition percentile_index :: "nat \<Rightarrow> real \<Rightarrow> int" where
  "percentile_index n q =
     max 0 (min (py_int (fl (fl (q * fl (real_of_int (int n - 1))) + 0.5))) (int n - 1))"

definition percentile :: "real list \<Rightarrow> real \<Rightarrow> real" where
  "percentile sorted_values q =
     (if sorted_values = [] then 0.0
      else sorted_values ! nat (percentile_index (length sorted_values) q))"

definition median :: "real list \<Rightarrow> real" where
  "median values =
     (if values = [] then 0.0
      else (let values_sorted = sort values;
                len = length values_sorted;
                middle = len div 2
            in if len mod 2 \<noteq> 0 then values_sorted ! middle
               else 0.5 * (values_sorted ! (middle - 1) + values_sorted ! middle)))"

record latency_stats =
  successful_requests :: nat
  p50_ms :: real
  p90_ms :: real
  p99_ms :: real
  min_ms :: real
  avg_ms :: real
  max_ms :: real

text \<open>
  \<^verbatim>\<open>_summarize_latencies\<close> sorts the list (in place) before it takes the percentiles. The
  literals \<^verbatim>\<open>0.9\<close> and \<^verbatim>\<open>0.99\<close> are the doubles nearest to them; \<^verbatim>\<open>0.5\<close> is a double.
\<close>

definition summarize_latencies :: "real list \<Rightarrow> latency_stats" where
  "summarize_latencies latencies0 =
     (let latencies = sort latencies0;
          n = length latencies
      in \<lparr> successful_requests = n,
           p50_ms = (if n \<noteq> 0 then percentile latencies 0.5 * 1000 else 0.0),
           p90_ms = (if n \<noteq> 0 then percentile latencies (fl 0.9) * 1000 else 0.0),
           p99_ms = (if n \<noteq> 0 then percentile latencies (fl 0.99) * 1000 else 0.0),
           min_ms = (if n \<noteq> 0 then latencies ! 0 * 1000 else 0.0),
           avg_ms = (if n \<noteq> 0 then (sum_list latencies / real n) * 1000 else 0.0),
           max_ms = (if n \<noteq> 0 then last latencies * 1000 else 0.0) \<rparr>)"

section \<open>The Closed-Loop Runner\<close>

text \<open>
  A coroutine returns a value, raises, or never returns. Printing (\<^verbatim>\<open>verbose\<close>,
  \<^verbatim>\<open>quiet\<close>) changes no returned value and is left out.
\<close>

datatype 'a run = Returned 'a | Raised error | Hangs

record run_summary = latency_stats +
  errors :: int
  throughput :: real
  wall :: real

text \<open>
  What one call of \<^verbatim>\<open>_closed_once\<close> meets: the network's answer to its \<open>i\<close>-th request, and
  the wall time that the two readings of the clock around \<^verbatim>\<open>asyncio.gather\<close> measure.
\<close>

record run_env =
  network :: "nat \<Rightarrow> connection"
  measured_wall :: real

text \<open>
  The body of the inner coroutine \<^verbatim>\<open>perform_request\<close>, on the two variables it updates:
  a negative duration adds one to \<^verbatim>\<open>error_count\<close>, any other is appended to
  \<^verbatim>\<open>latencies\<close>.
\<close>

definition perform_request :: "connection \<Rightarrow> real \<Rightarrow> real list \<times> int \<Rightarrow> (real list \<times> int) option" where
  "perform_request conn timeout acc =
     (case one_request conn timeout of
        None \<Rightarrow> None
      | Some duration \<Rightarrow>
          (let (latencies, error_count) = acc
           in if duration < 0 then Some (latencies, error_count + 1)
              else Some (latencies @ [duration], error_count)))"

text \<open>
  \<^verbatim>\<open>asyncio.gather\<close> over the requests: it returns when every request has returned. The
  requests finish in an order that the scheduler chooses; the model takes them in the order
  of dispatch, which gives the same \<^verbatim>\<open>error_count\<close> and, after the sort of
  \<^verbatim>\<open>_summarize_latencies\<close>, the same list.
\<close>

fun gather :: "(nat \<Rightarrow> connection) \<Rightarrow> real \<Rightarrow> nat list \<Rightarrow> real list \<times> int \<Rightarrow> (real list \<times> int) option" where
  "gather net timeout [] acc = Some acc"
| "gather net timeout (i # rest) acc =
     (case perform_request (net i) timeout acc of
        None \<Rightarrow> None
      | Some acc' \<Rightarrow> gather net timeout rest acc')"

text \<open>
  \<^verbatim>\<open>asyncio.Semaphore(concurrency)\<close> raises \<^verbatim>\<open>ValueError\<close> on a negative value; with the
  value 0 no request passes \<^verbatim>\<open>async with\<close>, so a run with a request to make never returns.
  \<^verbatim>\<open>range(total_requests)\<close> is empty for a total of 0 or less.
\<close>

definition closed_once :: "(string \<Rightarrow> bool) \<Rightarrow> run_env \<Rightarrow> string \<Rightarrow> int \<Rightarrow> int \<Rightarrow> real \<Rightarrow> run_summary run" where
  "closed_once bracketed_ok env url total_requests concurrency timeout =
     (case build_http_get bracketed_ok url of
        Inl e \<Rightarrow> Raised e
      | Inr (host, port_number, request_bytes) \<Rightarrow>
          if concurrency < 0 then Raised (ValueError ''Semaphore initial value must be >= 0'')
          else if concurrency = 0 \<and> 0 < total_requests then Hangs
          else
            (case gather (network env) timeout [0 ..< nat total_requests] ([], 0) of
               None \<Rightarrow> Hangs
             | Some (latencies, error_count) \<Rightarrow>
                 (let wall_time = measured_wall env;
                      stats = summarize_latencies latencies;
                      thr = (if wall_time > 0 then real (successful_requests stats) / wall_time else 0.0)
                  in Returned (latency_stats.extend stats
                       (run_summary.fields error_count thr wall_time)))))"

text \<open>
  The loop \<^verbatim>\<open>for i in range(repeat)\<close> of both runners: \<open>once k\<close> is the \<open>k\<close>-th single run
  that the runner starts, and the loop stops at the first run that raises or hangs.
\<close>

fun run_loop :: "(nat \<Rightarrow> run_summary run) \<Rightarrow> nat \<Rightarrow> nat \<Rightarrow> run_summary list run" where
  "run_loop once k 0 = Returned []"
| "run_loop once k (Suc n) =
     (case once k of
        Raised e \<Rightarrow> Raised e
      | Hangs \<Rightarrow> Hangs
      | Returned r \<Rightarrow>
          (case run_loop once (Suc k) n of
             Raised e \<Rightarrow> Raised e
           | Hangs \<Rightarrow> Hangs
           | Returned rs \<Rightarrow> Returned (r # rs)))"

text \<open>
  The summary of the repeats, the dictionary with the keys \<^verbatim>\<open>throughput\<close>, \<^verbatim>\<open>p50_ms\<close>,
  \<^verbatim>\<open>p90_ms\<close>, \<^verbatim>\<open>p99_ms\<close> and \<^verbatim>\<open>errors\<close>: four medians and the mean error count, which
  divides by \<^verbatim>\<open>max(repeat, 1)\<close>.
\<close>

record repeated_summary =
  median_throughput :: real
  median_p50_ms :: real
  median_p90_ms :: real
  median_p99_ms :: real
  mean_errors :: real

definition summarize_runs :: "run_summary list \<Rightarrow> int \<Rightarrow> repeated_summary" where
  "summarize_runs run_summaries repeat =
     \<lparr> median_throughput = median (map throughput run_summaries),
       median_p50_ms = median (map p50_ms run_summaries),
       median_p90_ms = median (map p90_ms run_summaries),
       median_p99_ms = median (map p99_ms run_summaries),
       mean_errors = real_of_int (sum_list (map errors run_summaries)) / real_of_int (max repeat 1) \<rparr>"

text \<open>The warmup run, when one is asked for, is the first single run; its summary is dropped.\<close>

definition warmup_then :: "bool \<Rightarrow> (nat \<Rightarrow> run_summary run) \<Rightarrow> (nat \<Rightarrow> 'a run) \<Rightarrow> 'a run" where
  "warmup_then wanted warm continue =
     (if wanted
      then (case warm 0 of
              Raised e \<Rightarrow> Raised e
            | Hangs \<Rightarrow> Hangs
            | Returned _ \<Rightarrow> continue 1)
      else continue 0)"

definition run_closed :: "(string \<Rightarrow> bool) \<Rightarrow> (nat \<Rightarrow> run_env) \<Rightarrow> string \<Rightarrow> int \<Rightarrow> int \<Rightarrow> real \<Rightarrow> int \<Rightarrow> int \<Rightarrow> repeated_summary run" where
  "run_closed bracketed_ok envs url total_requests concurrency timeout warmup repeat =
     warmup_then (warmup > 0)
       (\<lambda>k. closed_once bracketed_ok (envs k) url warmup concurrency timeout)
       (\<lambda>k. case run_loop (\<lambda>i. closed_once bracketed_ok (envs i) url total_requests concurrency timeout) k (nat repeat) of
               Raised e \<Rightarrow> Raised e
             | Hangs \<Rightarrow> Hangs
             | Returned run_summaries \<Rightarrow> Returned (summarize_runs run_summaries repeat))"

section \<open>The repeated Open-Loop Runner\<close>

text \<open>
  \<^verbatim>\<open>run_open\<close> has the shape of \<^verbatim>\<open>run_closed\<close>. A single open-loop run is paced by the
  clock, so its outcome is given by the environment: \<open>open_once k duration\<close> is what the
  \<open>k\<close>-th call of \<^verbatim>\<open>_open_once\<close> with that duration does (the other arguments are the
  runner's own \<^verbatim>\<open>url\<close>, \<^verbatim>\<open>rps\<close>, \<^verbatim>\<open>concurrency\<close> and \<^verbatim>\<open>timeout\<close>). The dispatch loop
  inside one such run is modelled in the next section.
\<close>

definition run_open :: "(nat \<Rightarrow> real \<Rightarrow> run_summary run) \<Rightarrow> real \<Rightarrow> real \<Rightarrow> int \<Rightarrow> repeated_summary run" where
  "run_open open_once duration warmup_sec repeat =
     warmup_then (warmup_sec > 0)
       (\<lambda>k. open_once k warmup_sec)
       (\<lambda>k. case run_loop (\<lambda>i. open_once i duration) k (nat repeat) of
               Raised e \<Rightarrow> Raised e
             | Hangs \<Rightarrow> Hangs
             | Returned run_summaries \<Rightarrow> Returned (summarize_runs run_summaries repeat))"

section \<open>The dispatch loop of an open-loop run\<close>

text \<open>
  \<^verbatim>\<open>_open_once\<close> runs on the event loop of \<^verbatim>\<open>asyncio\<close>: one thread, and a coroutine runs
  without interruption from one \<^verbatim>\<open>await\<close> to the next. A run is therefore a sequence of
  atomic events, and the model is the function that applies one event to the state of the
  run, or refuses it when the code cannot do it in that state. The events are the iterations
  of the main loop (the dispatch branch, the sleep branch, the \<^verbatim>\<open>break\<close>), the steps of
  the request tasks (entering \<^verbatim>\<open>async with concurrency_semaphore\<close>, returning from
  \<^verbatim>\<open>one_request\<close> and leaving the block), the done-callback
  \<^verbatim>\<open>in_flight_tasks.discard\<close> of a finished task, and the return of
  \<^verbatim>\<open>asyncio.gather\<close>, after which the summary is computed. Clock readings and the order
  of the events are chosen by the environment; every order that the guards allow is a run.

  The main loop is \<open>Dispatching\<close> until the \<^verbatim>\<open>break\<close>, then \<open>Draining\<close> in
  \<^verbatim>\<open>gather\<close>, then \<open>Summarized\<close>.
\<close>

datatype phase = Dispatching | Draining | Summarized

text \<open>
  The arguments of \<^verbatim>\<open>_open_once\<close> (\<open>cap\<close> is \<^verbatim>\<open>concurrency_cap\<close>, \<open>request_timeout\<close>
  is \<^verbatim>\<open>timeout\<close>) and the first reading of the clock.
\<close>

record open_params =
  target_rps :: real
  duration_sec :: real
  cap :: int
  request_timeout :: real
  start_time :: real

text \<open>
  The variables of the run: the free slots of the semaphore, the set \<^verbatim>\<open>in_flight_tasks\<close>,
  \<^verbatim>\<open>latencies\<close>, \<^verbatim>\<open>error_count\<close> and \<^verbatim>\<open>next_scheduled_time\<close>. Tasks are numbered in
  the order of creation. A task is \<open>waiting\<close> from its creation until it holds a slot of the
  semaphore, \<open>executing\<close> while it holds one (it is inside \<^verbatim>\<open>one_request\<close>), and
  \<open>finished\<close> afterwards. \<open>gathered\<close> is the set handed to \<^verbatim>\<open>asyncio.gather\<close>.
\<close>

record open_state =
  phase :: phase
  semaphore_value :: nat
  in_flight_tasks :: "nat set"
  created :: nat
  waiting :: "nat set"
  executing :: "nat set"
  finished :: "nat set"
  gathered :: "nat set"
  latencies :: "real list"
  error_count :: int
  next_scheduled_time :: real
  summary :: "run_summary option"

datatype event =
    Dispatch real
  | Sleep real
  | Break real
  | Acquire nat
  | Finish nat connection
  | Discard nat
  | Summarize real

text \<open>
  Before the loop: the request is built, which may raise, and the semaphore is created,
  which raises on a negative cap.
\<close>

definition open_start :: "(string \<Rightarrow> bool) \<Rightarrow> string \<Rightarrow> open_params \<Rightarrow> error + open_state" where
  "open_start bracketed_ok url p =
     (case build_http_get bracketed_ok url of
        Inl e \<Rightarrow> Inl e
      | Inr target \<Rightarrow>
          if cap p < 0 then Inl (ValueError ''Semaphore initial value must be >= 0'')
          else Inr \<lparr> phase = Dispatching, semaphore_value = nat (cap p), in_flight_tasks = {},
                     created = 0, waiting = {}, executing = {}, finished = {}, gathered = {},
                     latencies = [], error_count = 0, next_scheduled_time = start_time p,
                     summary = None \<rparr>)"

definition schedule_interval_seconds :: "open_params \<Rightarrow> real" where
  "schedule_interval_seconds p = 1.0 / max (target_rps p) (1 / 10 ^ 9)"

definition may_dispatch :: "open_params \<Rightarrow> open_state \<Rightarrow> real \<Rightarrow> bool" where
  "may_dispatch p s now \<longleftrightarrow>
     now \<ge> next_scheduled_time s \<and> int (card (in_flight_tasks s)) < 4 * cap p"

text \<open>
  One event. A task that finishes appends its latency or counts an error, and releases its
  slot; \<^verbatim>\<open>one_request\<close> that never returns gives no such event. \<^verbatim>\<open>gather\<close> returns once
  every task it was given is done.
\<close>

fun open_step :: "open_params \<Rightarrow> open_state \<Rightarrow> event \<Rightarrow> open_state option" where
  "open_step p s (Dispatch now) =
     (if phase s = Dispatching \<and> now - start_time p < duration_sec p \<and> may_dispatch p s now
      then Some (s\<lparr> in_flight_tasks := insert (created s) (in_flight_tasks s),
                    waiting := insert (created s) (waiting s),
                    created := Suc (created s),
                    next_scheduled_time := next_scheduled_time s + schedule_interval_seconds p \<rparr>)
      else None)"
| "open_step p s (Sleep now) =
     (if phase s = Dispatching \<and> now - start_time p < duration_sec p \<and> \<not> may_dispatch p s now
      then Some s else None)"
| "open_step p s (Break now) =
     (if phase s = Dispatching \<and> now - start_time p \<ge> duration_sec p
      then Some (s\<lparr> phase := Draining, gathered := in_flight_tasks s \<rparr>)
      else None)"
| "open_step p s (Acquire i) =
     (if i \<in> waiting s \<and> 0 < semaphore_value s
      then Some (s\<lparr> waiting := waiting s - {i}, executing := insert i (executing s),
                    semaphore_value := semaphore_value s - 1 \<rparr>)
      else None)"
| "open_step p s (Finish i conn) =
     (if i \<in> executing s
      then (case one_request conn (request_timeout p) of
              None \<Rightarrow> None
            | Some duration \<Rightarrow>
                Some (s\<lparr> executing := executing s - {i}, finished := insert i (finished s),
                         semaphore_value := semaphore_value s + 1,
                         latencies := (if duration < 0 then latencies s else latencies s @ [duration]),
                         error_count := (if duration < 0 then error_count s + 1 else error_count s) \<rparr>))
      else None)"
| "open_step p s (Discard i) =
     (if i \<in> finished s \<and> i \<in> in_flight_tasks s
      then Some (s\<lparr> in_flight_tasks := in_flight_tasks s - {i} \<rparr>)
      else None)"
| "open_step p s (Summarize now) =
     (if phase s = Draining \<and> gathered s \<subseteq> finished s
      then (let wall_time = now - start_time p;
                stats = summarize_latencies (latencies s);
                achieved_rps = (if wall_time > 0 then real (successful_requests stats) / wall_time else 0.0)
            in Some (s\<lparr> phase := Summarized,
                          summary := Some (latency_stats.extend stats
                                            (run_summary.fields (error_count s) achieved_rps wall_time)) \<rparr>))
      else None)"

fun run_events :: "open_params \<Rightarrow> open_state \<Rightarrow> event list \<Rightarrow> open_state option" where
  "run_events p s [] = Some s"
| "run_events p s (e # es) = (case open_step p s e of None \<Rightarrow> None | Some s' \<Rightarrow> run_events p s' es)"

text \<open>The invariant of the run.\<close>

definition open_inv :: "open_params \<Rightarrow> open_state \<Rightarrow> bool" where
  "open_inv p s \<longleftrightarrow>
     0 \<le> cap p
     \<and> finite (in_flight_tasks s) \<and> int (card (in_flight_tasks s)) \<le> 4 * cap p
     \<and> in_flight_tasks s \<subseteq> {0 ..< created s}
     \<and> waiting s \<union> executing s \<subseteq> in_flight_tasks s
     \<and> waiting s \<inter> executing s = {} \<and> waiting s \<inter> finished s = {} \<and> executing s \<inter> finished s = {}
     \<and> waiting s \<union> executing s \<union> finished s = {0 ..< created s}
     \<and> int (card (executing s)) + int (semaphore_value s) = cap p
     \<and> (phase s \<noteq> Dispatching \<longrightarrow> waiting s \<union> executing s \<subseteq> gathered s)
     \<and> (phase s = Summarized \<longrightarrow> waiting s \<union> executing s = {})
     \<and> error_count s + int (length (latencies s)) = int (card (finished s))
     \<and> (phase s = Summarized \<longleftrightarrow> summary s \<noteq> None)
     \<and> (\<forall>r. summary s = Some r \<longrightarrow> errors r = error_count s \<and> successful_requests r = length (latencies s))"

section \<open>The Calibration Orchestrator\<close>

text \<open>
  \<^verbatim>\<open>max(results, key=...)\<close>: the first item is the candidate, and a later item replaces it
  only when its key is greater. On an empty list \<^verbatim>\<open>max\<close> raises \<^verbatim>\<open>ValueError\<close>.
\<close>

definition py_max :: "('a \<Rightarrow> real) \<Rightarrow> 'a list \<Rightarrow> error + 'a" where
  "py_max key xs =
     (case xs of
        [] \<Rightarrow> Inl (ValueError ''max() arg is an empty sequence'')
      | x # rest \<Rightarrow> Inr (foldl (\<lambda>best item. if key item > key best then item else best) x rest))"

record open_plan =
  best_concurrency :: int
  calibrated_rps :: real
  open_targets_rps :: "real list"
  concurrency_cap :: int

text \<open>
  The step of \<^verbatim>\<open>run_preset\<close> between the sweep and the open-loop runs: from the sweep's
  results to the best point, the three target rates and the concurrency cap.
\<close>

definition run_preset_plan :: "(int \<times> repeated_summary) list \<Rightarrow> error + open_plan" where
  "run_preset_plan results =
     (case py_max (\<lambda>x. median_throughput (snd x)) results of
        Inl e \<Rightarrow> Inl e
      | Inr (best_conc, best_summary) \<Rightarrow>
          (let calibrated = median_throughput best_summary
           in Inr \<lparr> best_concurrency = best_conc,
                    calibrated_rps = calibrated,
                    open_targets_rps = [max 50.0 (0.5 * calibrated),
                                        max 50.0 (0.9 * calibrated),
                                        max 50.0 (1.1 * calibrated)],
                    concurrency_cap = min (py_int (2.5 * real_of_int best_conc)) 2000 \<rparr>))"

section \<open>Notions of the specification\<close>







definition silent_peer :: connection where
  "silent_peer = \<lparr> open_connection = Completes 0.01 (), drain = Completes 0 (),
                    reads = (\<lambda>k. if k < 2 then Completes 1 100 else Never),
                    wait_closed = Completes 0 () \<rparr>"

section \<open>Sample inputs\<close>

text \<open>
  The summary with every field zero; an environment whose network refuses every connection;
  the summary of a single run without a request; a peer that answers with one chunk and
  closes; an environment that alternates the answering
  and the silent peer; and a sweep with three points, the last two with the same median
  throughput.
\<close>

definition zero_summary :: repeated_summary where
  "zero_summary = \<lparr> median_throughput = 0, median_p50_ms = 0, median_p90_ms = 0,
                     median_p99_ms = 0, mean_errors = 0 \<rparr>"

definition refusing_env :: run_env where
  "refusing_env = \<lparr> network = (\<lambda>i. \<lparr> open_connection = Raises, drain = Raises,
                                        reads = (\<lambda>k. Raises), wait_closed = Raises \<rparr>),
                     measured_wall = 1 \<rparr>"

definition sample_summary :: "real \<Rightarrow> repeated_summary" where
  "sample_summary thr = \<lparr> median_throughput = thr, median_p50_ms = 1, median_p90_ms = 2,
                          median_p99_ms = 3, mean_errors = 0 \<rparr>"

definition sample_results :: "(int \<times> repeated_summary) list" where
  "sample_results = [(1, sample_summary 80), (5, sample_summary 120), (10, sample_summary 120)]"

definition empty_run :: run_summary where
  "empty_run = latency_stats.extend (summarize_latencies []) (run_summary.fields 0 0 1)"

definition quick_peer :: connection where
  "quick_peer = \<lparr> open_connection = Completes 0.01 (), drain = Completes 0 (),
                   reads = (\<lambda>k. if k = 0 then Completes 0.01 100 else Completes 0.01 0),
                   wait_closed = Completes 0 () \<rparr>"

definition mixed_env :: run_env where
  "mixed_env = \<lparr> network = (\<lambda>i. if even i then quick_peer else silent_peer), measured_wall = 2 \<rparr>"

text \<open>
  An open-loop run at 100 requests per second for one second with a cap of 1: two requests
  are dispatched, the first is answered, the second meets, after the \<^verbatim>\<open>break\<close>, a peer
  that stays silent, and the summary is computed at 3 seconds.
\<close>

definition demo_params :: open_params where
  "demo_params = \<lparr> target_rps = 100, duration_sec = 1, cap = 1, request_timeout = 2, start_time = 0 \<rparr>"

definition demo_events :: "event list" where
  "demo_events = [Dispatch 0, Acquire 0, Dispatch 0.01, Sleep 0.015, Finish 0 quick_peer, Discard 0,
                  Acquire 1, Break 1, Finish 1 silent_peer, Summarize 3]"

section \<open>Notions of the Request Builder\<close>

text \<open>
  The request that \<^verbatim>\<open>build_http_get\<close> renders, the host and the port it returns, written
  apart: the f-string of the source, \<^verbatim>\<open>hostname or "127.0.0.1"\<close> and \<^verbatim>\<open>port or 80\<close>.
  An authority is a text with none of the delimiters \<open>/?#\<close>; \<^verbatim>\<open>urlsplit\<close> removes tab,
  CR and LF from the URL, and so from the authority. \<open>accept_all\<close> stands for a library that
  accepts every bracketed host. \<open>tabbed_url\<close> is \<open>http://h<TAB>ost/p\<close>.
\<close>

definition request_text :: "parse_result \<Rightarrow> string \<Rightarrow> string" where
  "request_text p host =
     ''GET '' @ (if path p = [] then ''/'' else path p) @ (if query p = [] then [] else ''?'' @ query p)
     @ '' HTTP/1.1'' @ crlf
     @ ''Host: '' @ (if netloc p = [] then host else netloc p) @ crlf
     @ ''Connection: close'' @ crlf @ crlf"

definition host_or_default :: "parse_result \<Rightarrow> string" where
  "host_or_default p = (case hostname p of None \<Rightarrow> ''127.0.0.1'' | Some h \<Rightarrow> h)"

definition port_or_default :: "int option \<Rightarrow> int" where
  "port_or_default n = (case n of None \<Rightarrow> 80 | Some k \<Rightarrow> if k = 0 then 80 else k)"

definition no_delimiter :: "string \<Rightarrow> bool" where
  "no_delimiter a = list_all (\<lambda>c. c \<notin> set ''/?#'') a"

definition without_tab_cr_lf :: "string \<Rightarrow> string" where
  "without_tab_cr_lf a = filter (\<lambda>c. c \<noteq> CHR 0x09 \<and> c \<noteq> CHR 0x0D \<and> c \<noteq> CHR 0x0A) a"

definition tabbed_url :: string where
  "tabbed_url = ''http://h'' @ [CHR 0x09] @ ''ost/p''"

definition accept_all :: "string \<Rightarrow> bool" where
  "accept_all bracketed = True"

section \<open>The percentile and the median\<close>




























text \<open>
  C5: for a list of odd length \<open>2k + 1\<close> the median is the element at index \<open>k\<close> of the
  sorted list, the middle one; for a non-empty list of even length \<open>2k\<close> it is the average of
  the elements at the indices \<open>k - 1\<close> and \<open>k\<close> of the sorted list, the two middle ones.
\<close>

theorem median_middle:
  "(length xs = 2 * k + 1 \<longrightarrow> median xs = sort xs ! k \<and> k < length (sort xs))
   \<and> (length xs = 2 * k \<and> 0 < k \<longrightarrow>
        median xs = (sort xs ! (k - 1) + sort xs ! k) / 2 \<and> k < length (sort xs))"
proof (intro conjI impI)
  assume a: "length xs = 2 * k + 1"
  then have "xs \<noteq> []" by auto
  with a show "median xs = sort xs ! k" by (simp add: median_def Let_def)
  from a show "k < length (sort xs)" by simp
next
  assume a: "length xs = 2 * k \<and> 0 < k"
  then have "xs \<noteq> []" by auto
  with a show "median xs = (sort xs ! (k - 1) + sort xs ! k) / 2" by (simp add: median_def Let_def)
  from a show "k < length (sort xs)" by simp
qed

theorem median_middle_witness:
  "median [5, 1, 3] = 3 \<and> median [4, 1, 3, 2] = 5 / 2"
  using median_middle[of "[5, 1, 3]" 1] median_middle[of "[4, 1, 3, 2]" 2]
  by simp

section \<open>The timeouts of the executor\<close>








section \<open>The calibration step\<close>

lemma foldl_max_first:
  fixes key :: "'a \<Rightarrow> real"
  shows "\<exists>i < length (x # rest).
           foldl (\<lambda>best item. if key item > key best then item else best) x rest = (x # rest) ! i
         \<and> (\<forall>j < length (x # rest). key ((x # rest) ! j) \<le> key ((x # rest) ! i))
         \<and> (\<forall>j < i. key ((x # rest) ! j) < key ((x # rest) ! i))"
proof (induction rest rule: rev_induct)
  case Nil
  show ?case by simp
next
  case (snoc y ys)
  let ?f = "\<lambda>best item. if key item > key best then item else best"
  from snoc obtain i where i: "i < length (x # ys)" "foldl ?f x ys = (x # ys) ! i"
    "\<forall>j < length (x # ys). key ((x # ys) ! j) \<le> key ((x # ys) ! i)"
    "\<forall>j < i. key ((x # ys) ! j) < key ((x # ys) ! i)" by blast
  have nth_old: "\<And>j. j < length (x # ys) \<Longrightarrow> (x # ys @ [y]) ! j = (x # ys) ! j"
    by (metis append_Cons nth_append)
  have nth_new: "(x # ys @ [y]) ! length (x # ys) = y"
    by (metis append_Cons nth_append_length)
  show ?case
  proof (cases "key y > key ((x # ys) ! i)")
    case True
    let ?n = "length (x # ys)"
    have r: "foldl ?f x (ys @ [y]) = (x # ys @ [y]) ! ?n" using True i(2) nth_new by simp
    have all: "\<forall>j < length (x # ys @ [y]). key ((x # ys @ [y]) ! j) \<le> key ((x # ys @ [y]) ! ?n)"
    proof (intro allI impI)
      fix j assume "j < length (x # ys @ [y])"
      then consider "j < ?n" | "j = ?n" by fastforce
      then show "key ((x # ys @ [y]) ! j) \<le> key ((x # ys @ [y]) ! ?n)"
      proof cases
        case 1
        then have "key ((x # ys) ! j) \<le> key ((x # ys) ! i)" using i(3) by blast
        with True 1 show ?thesis using nth_old[of j] nth_new by simp
      next
        case 2
        then show ?thesis by simp
      qed
    qed
    have first: "\<forall>j < ?n. key ((x # ys @ [y]) ! j) < key ((x # ys @ [y]) ! ?n)"
    proof (intro allI impI)
      fix j assume j: "j < ?n"
      then have "key ((x # ys) ! j) \<le> key ((x # ys) ! i)" using i(3) by blast
      with True j show "key ((x # ys @ [y]) ! j) < key ((x # ys @ [y]) ! ?n)"
        using nth_old[of j] nth_new by simp
    qed
    have "?n < length (x # ys @ [y])" by simp
    with r all first show ?thesis by blast
  next
    case False
    have r: "foldl ?f x (ys @ [y]) = (x # ys @ [y]) ! i" using False i(1,2) nth_old[of i] by simp
    have all: "\<forall>j < length (x # ys @ [y]). key ((x # ys @ [y]) ! j) \<le> key ((x # ys @ [y]) ! i)"
    proof (intro allI impI)
      fix j assume "j < length (x # ys @ [y])"
      then consider "j < length (x # ys)" | "j = length (x # ys)" by fastforce
      then show "key ((x # ys @ [y]) ! j) \<le> key ((x # ys @ [y]) ! i)"
      proof cases
        case 1
        then show ?thesis using i(1,3) nth_old[of j] nth_old[of i] by simp
      next
        case 2
        then show ?thesis using False i(1) nth_old[of i] nth_new by simp
      qed
    qed
    have first: "\<forall>j < i. key ((x # ys @ [y]) ! j) < key ((x # ys @ [y]) ! i)"
    proof (intro allI impI)
      fix j assume j: "j < i"
      then have "j < length (x # ys)" using i(1) by simp
      then show "key ((x # ys @ [y]) ! j) < key ((x # ys @ [y]) ! i)"
        using i(1,4) j nth_old[of j] nth_old[of i] by simp
    qed
    have "i < length (x # ys @ [y])" using i(1) by simp
    with r all first show ?thesis by blast
  qed
qed

lemma py_max_first:
  fixes key :: "'a \<Rightarrow> real"
  assumes "xs \<noteq> []"
  shows "\<exists>i < length xs. py_max key xs = Inr (xs ! i)
         \<and> (\<forall>j < length xs. key (xs ! j) \<le> key (xs ! i))
         \<and> (\<forall>j < i. key (xs ! j) < key (xs ! i))"
proof -
  from assms obtain x rest where xs: "xs = x # rest" by (cases xs) auto
  show ?thesis unfolding xs py_max_def using foldl_max_first[of x rest key] by simp
qed

lemma py_int_half5: "0 \<le> c \<Longrightarrow> py_int (2.5 * real_of_int c) = (5 * c) div 2"
proof -
  assume c: "0 \<le> c"
  have "2.5 * real_of_int c = real_of_int (5 * c) / real_of_int 2" by simp
  then have "\<lfloor>2.5 * real_of_int c\<rfloor> = (5 * c) div 2"
    by (metis floor_divide_of_int_eq)
  with c show ?thesis by (simp add: py_int_def)
qed

text \<open>
  C3, as the claim states it, fails at the concurrency cap: the code takes
  \<^verbatim>\<open>int(2.5 * best_concurrency)\<close>, which drops the fraction. With the best point at
  concurrency 1 the cap is 2, not \<open>min(2.5 \<times> 1, 2000) = 2.5\<close>.
\<close>

theorem preset_cap_counterexample:
  "run_preset_plan [(1, sample_summary 100)] =
     Inr \<lparr> best_concurrency = 1, calibrated_rps = 100, open_targets_rps = [50, 90, 110], concurrency_cap = 2 \<rparr>
   \<and> real_of_int 2 \<noteq> min (2.5 * real_of_int 1) 2000"
  by (simp add: run_preset_plan_def py_max_def sample_summary_def py_int_def)

text \<open>
  C3, amended: for a sweep with at least one point, \<open>best\<close> is a point of the sweep with
  maximal median throughput, the first such point in the sweep's order; the three open-loop
  target rates are exactly \<open>max(50, 0.5 \<times> T)\<close>, \<open>max(50, 0.9 \<times> T)\<close> and
  \<open>max(50, 1.1 \<times> T)\<close> for \<open>T\<close> the throughput of \<open>best\<close>, so each is at least 50; and the
  concurrency cap is \<open>min(int(2.5 \<times> best.concurrency), 2000)\<close>, where \<open>int\<close> drops the
  fraction: for a concurrency of 0 or more, \<open>min(\<lfloor>5 \<times> best.concurrency / 2\<rfloor>, 2000)\<close>.
\<close>

theorem preset_plan_best:
  assumes "results \<noteq> []"
  shows "\<exists>i plan. i < length results \<and> run_preset_plan results = Inr plan
     \<and> best_concurrency plan = fst (results ! i)
     \<and> calibrated_rps plan = median_throughput (snd (results ! i))
     \<and> (\<forall>j < length results. median_throughput (snd (results ! j)) \<le> calibrated_rps plan)
     \<and> (\<forall>j < i. median_throughput (snd (results ! j)) < calibrated_rps plan)
     \<and> open_targets_rps plan = [max 50 (0.5 * calibrated_rps plan), max 50 (0.9 * calibrated_rps plan),
                                 max 50 (1.1 * calibrated_rps plan)]
     \<and> (\<forall>t \<in> set (open_targets_rps plan). 50 \<le> t)
     \<and> concurrency_cap plan = min (py_int (2.5 * real_of_int (best_concurrency plan))) 2000
     \<and> (0 \<le> best_concurrency plan \<longrightarrow> concurrency_cap plan = min ((5 * best_concurrency plan) div 2) 2000)"
proof -
  let ?key = "\<lambda>x :: int \<times> repeated_summary. median_throughput (snd x)"
  from py_max_first[OF assms, of ?key] obtain i where i: "i < length results"
    "py_max ?key results = Inr (results ! i)"
    "\<forall>j < length results. ?key (results ! j) \<le> ?key (results ! i)"
    "\<forall>j < i. ?key (results ! j) < ?key (results ! i)" by blast
  obtain c s where cs: "results ! i = (c, s)" by (cases "results ! i")
  let ?T = "median_throughput s"
  let ?plan = "\<lparr> best_concurrency = c, calibrated_rps = ?T,
                  open_targets_rps = [max 50 (0.5 * ?T), max 50 (0.9 * ?T), max 50 (1.1 * ?T)],
                  concurrency_cap = min (py_int (2.5 * real_of_int c)) 2000 \<rparr>"
  have p: "run_preset_plan results = Inr ?plan"
    by (simp add: run_preset_plan_def i(2) cs Let_def)
  have cap: "0 \<le> c \<longrightarrow> min (py_int (2.5 * real_of_int c)) 2000 = min ((5 * c) div 2) 2000"
    using py_int_half5 by simp
  show ?thesis
    apply (rule exI[of _ i], rule exI[of _ ?plan])
    using i(1,3,4) p cap cs by simp
qed

theorem preset_plan_best_witness:
  "run_preset_plan sample_results =
     Inr \<lparr> best_concurrency = 5, calibrated_rps = 120, open_targets_rps = [60, 108, 132], concurrency_cap = 12 \<rparr>"
proof -
  have ne: "sample_results \<noteq> []" by (simp add: sample_results_def)
  have len: "length sample_results = 3" by (simp add: sample_results_def)
  have t0: "median_throughput (snd (sample_results ! 0)) = 80" "fst (sample_results ! 0) = 1"
    by (simp_all add: sample_results_def sample_summary_def)
  have t1: "median_throughput (snd (sample_results ! 1)) = 120" "fst (sample_results ! 1) = 5"
    by (simp_all add: sample_results_def sample_summary_def)
  have t2: "median_throughput (snd (sample_results ! 2)) = 120"
    by (simp_all add: sample_results_def sample_summary_def)
  from preset_plan_best[OF ne] obtain i plan where h: "i < length sample_results"
     "run_preset_plan sample_results = Inr plan"
     "best_concurrency plan = fst (sample_results ! i)"
     "calibrated_rps plan = median_throughput (snd (sample_results ! i))"
     "\<forall>j < length sample_results. median_throughput (snd (sample_results ! j)) \<le> calibrated_rps plan"
     "\<forall>j < i. median_throughput (snd (sample_results ! j)) < calibrated_rps plan"
     "open_targets_rps plan = [max 50 (0.5 * calibrated_rps plan), max 50 (0.9 * calibrated_rps plan),
                                 max 50 (1.1 * calibrated_rps plan)]"
     "0 \<le> best_concurrency plan \<longrightarrow> concurrency_cap plan = min ((5 * best_concurrency plan) div 2) 2000"
    by blast
  from h(1) len consider "i = 0" | "i = 1" | "i = 2" by fastforce
  then have i1: "i = 1"
  proof cases
    case 1
    with h(4) t0 have "calibrated_rps plan = 80" by simp
    moreover from h(5) len have "median_throughput (snd (sample_results ! 1)) \<le> calibrated_rps plan" by simp
    ultimately show ?thesis using t1 by simp
  next
    case 2 then show ?thesis .
  next
    case 3
    with h(4) t2 have "calibrated_rps plan = 120" by simp
    moreover from h(6) 3 have "median_throughput (snd (sample_results ! 1)) < calibrated_rps plan" by simp
    ultimately show ?thesis using t1 by simp
  qed
  from h(3,4,7,8) i1 t1 have "plan = \<lparr> best_concurrency = 5, calibrated_rps = 120, open_targets_rps = [60, 108, 132], concurrency_cap = 12 \<rparr>"
    by (cases plan) simp
  with h(2) show ?thesis by simp
qed

section \<open>The repeat count\<close>

lemma summarize_runs_Nil: "repeat \<le> 0 \<Longrightarrow> summarize_runs [] repeat = zero_summary"
  by (simp add: summarize_runs_def zero_summary_def median_def)

lemma run_closed_repeat_le_0:
  "repeat \<le> 0 \<Longrightarrow>
   run_closed ok envs url n c t warmup repeat =
     warmup_then (warmup > 0) (\<lambda>k. closed_once ok (envs k) url warmup c t) (\<lambda>k. Returned zero_summary)"
  by (simp add: run_closed_def summarize_runs_Nil)

lemma run_open_repeat_le_0:
  "repeat \<le> 0 \<Longrightarrow>
   run_open once duration warmup_sec repeat =
     warmup_then (warmup_sec > 0) (\<lambda>k. once k warmup_sec) (\<lambda>k. Returned zero_summary)"
  by (simp add: run_open_def summarize_runs_Nil)

lemma warmup_then_const:
  "warmup_then w warm (\<lambda>k. Returned z) = Returned r \<Longrightarrow> r = z"
  by (auto simp: warmup_then_def split: if_splits run.splits)

text \<open>
  C4, as the claim states it, fails: neither runner checks \<^verbatim>\<open>repeat\<close>. With
  \<^verbatim>\<open>repeat = 0\<close> and no warmup, \<^verbatim>\<open>run_closed\<close> and \<^verbatim>\<open>run_open\<close> start no run and
  return the summary with every field zero.
\<close>

theorem repeat_zero_counterexample:
  "run_closed (\<lambda>h. True) (\<lambda>k. refusing_env) ''http://127.0.0.1:8000/'' 1000 100 5 0 0 = Returned zero_summary
   \<and> run_open (\<lambda>k d. Hangs) 10 0 0 = Returned zero_summary"
  by (simp add: run_closed_def run_open_def warmup_then_def summarize_runs_def zero_summary_def median_def)

text \<open>
  C4, amended: the closed-loop and open-loop repeated runners do not validate the repeat
  count. With \<^verbatim>\<open>repeat\<close> of 0 or less they start no measured run and return the
  zero-valued summary (every median 0, mean error count 0, the division being by
  \<^verbatim>\<open>max(repeat, 1)\<close>): at once when no warmup is asked, and as soon as the warmup run has
  returned when one is; they return nothing else.
\<close>

theorem repeat_zero_returns_zero_summary:
  assumes "repeat \<le> 0"
  shows "(warmup \<le> 0 \<longrightarrow> run_closed ok envs url n c t warmup repeat = Returned zero_summary)
     \<and> (warmup_sec \<le> 0 \<longrightarrow> run_open once duration warmup_sec repeat = Returned zero_summary)
     \<and> (\<forall>r. run_closed ok envs url n c t warmup repeat = Returned r \<longrightarrow> r = zero_summary)
     \<and> (\<forall>r. run_open once duration warmup_sec repeat = Returned r \<longrightarrow> r = zero_summary)
     \<and> (0 < warmup \<and> closed_once ok (envs 0) url warmup c t = Returned w
          \<longrightarrow> run_closed ok envs url n c t warmup repeat = Returned zero_summary)
     \<and> (0 < warmup_sec \<and> once 0 warmup_sec = Returned w'
          \<longrightarrow> run_open once duration warmup_sec repeat = Returned zero_summary)"
proof -
  have 1: "warmup \<le> 0 \<longrightarrow> run_closed ok envs url n c t warmup repeat = Returned zero_summary"
    using assms by (simp add: run_closed_repeat_le_0 warmup_then_def)
  have 2: "warmup_sec \<le> 0 \<longrightarrow> run_open once duration warmup_sec repeat = Returned zero_summary"
    using assms by (simp add: run_open_repeat_le_0 warmup_then_def)
  have 3: "\<forall>r. run_closed ok envs url n c t warmup repeat = Returned r \<longrightarrow> r = zero_summary"
    using assms by (auto simp: run_closed_repeat_le_0 dest: warmup_then_const)
  have 4: "\<forall>r. run_open once duration warmup_sec repeat = Returned r \<longrightarrow> r = zero_summary"
    using assms by (auto simp: run_open_repeat_le_0 dest: warmup_then_const)
  have 5: "0 < warmup \<and> closed_once ok (envs 0) url warmup c t = Returned w
          \<longrightarrow> run_closed ok envs url n c t warmup repeat = Returned zero_summary"
    using assms by (simp add: run_closed_repeat_le_0 warmup_then_def)
  have 6: "0 < warmup_sec \<and> once 0 warmup_sec = Returned w'
          \<longrightarrow> run_open once duration warmup_sec repeat = Returned zero_summary"
    using assms by (simp add: run_open_repeat_le_0 warmup_then_def)
  from 1 2 3 4 5 6 show ?thesis by blast
qed

lemma refused_warmup_returns:
  "\<exists>w. closed_once (\<lambda>h. True) refusing_env ''http://127.0.0.1:8000/'' 2 100 5 = Returned w"
proof -
  have u: "\<exists>target. build_http_get (\<lambda>h. True) ''http://127.0.0.1:8000/'' = Inr target"
    by (simp add: build_http_get_def urlparse_def strip_unsafe_def split_scheme_def partition_at_def
      ascii_letters_def scheme_chars_def lower_def lower_char_def splitnetloc_def uses_params_def
      hostname_def hostinfo_def after_last_def port_def ascii_digits_def digits_to_int_def
      isascii_def crlf_def Let_def)
  have o: "\<And>i. one_request (network refusing_env i) 5 = Some (- 1)"
    by (simp add: refusing_env_def one_request_def wait_for_def)
  have l: "[0 ..< 2] = [0, Suc 0]" by (simp add: upt_rec)
  have g: "gather (network refusing_env) 5 [0 ..< 2] ([], 0) = Some ([], 2)"
    unfolding l by (simp add: perform_request_def o)
  from u obtain target where "build_http_get (\<lambda>h. True) ''http://127.0.0.1:8000/'' = Inr target" by blast
  then show ?thesis
    by (cases target) (simp add: closed_once_def g Let_def)
qed

theorem repeat_zero_returns_zero_summary_witness:
  "run_closed (\<lambda>h. True) (\<lambda>k. refusing_env) ''ftp://bad/'' 1000 100 5 0 0 = Returned zero_summary
   \<and> run_open (\<lambda>k d. Hangs) 10 0 (- 1) = Returned zero_summary
   \<and> run_closed (\<lambda>h. True) (\<lambda>k. refusing_env) ''http://127.0.0.1:8000/'' 1000 100 5 2 0 = Returned zero_summary
   \<and> run_open (\<lambda>k d. Returned empty_run) 10 3 0 = Returned zero_summary"
proof -
  have a: "(0::int) \<le> 0" by simp
  have b: "(- 1::int) \<le> 0" by simp
  from repeat_zero_returns_zero_summary[OF a, where ?warmup = 0 and ?ok = "\<lambda>h. True"
      and ?envs = "\<lambda>k. refusing_env" and ?url = "''ftp://bad/''" and ?n = 1000 and ?c = 100 and ?t = 5]
  have 1: "run_closed (\<lambda>h. True) (\<lambda>k. refusing_env) ''ftp://bad/'' 1000 100 5 0 0 = Returned zero_summary"
    by simp
  from repeat_zero_returns_zero_summary[OF b, where ?warmup_sec = 0 and ?once = "\<lambda>k d. Hangs" and ?duration = 10]
  have 2: "run_open (\<lambda>k d. Hangs) 10 0 (- 1) = Returned zero_summary"
    by simp
  from refused_warmup_returns obtain w where
    w: "closed_once (\<lambda>h. True) refusing_env ''http://127.0.0.1:8000/'' 2 100 5 = Returned w" by blast
  from repeat_zero_returns_zero_summary[OF a, where ?warmup = 2 and ?ok = "\<lambda>h. True"
      and ?envs = "\<lambda>k. refusing_env" and ?url = "''http://127.0.0.1:8000/''" and ?n = 1000 and ?c = 100
      and ?t = 5 and ?w = w] w
  have 3: "run_closed (\<lambda>h. True) (\<lambda>k. refusing_env) ''http://127.0.0.1:8000/'' 1000 100 5 2 0 = Returned zero_summary"
    by simp
  from repeat_zero_returns_zero_summary[OF a, where ?warmup_sec = 3 and ?once = "\<lambda>k d. Returned empty_run"
      and ?duration = 10 and ?w' = empty_run]
  have 4: "run_open (\<lambda>k d. Returned empty_run) 10 3 0 = Returned zero_summary"
    by simp
  from 1 2 3 4 show ?thesis by blast
qed

section \<open>The outcomes of a closed-loop run\<close>

lemma perform_request_counts:
  "perform_request conn t (lat, e) = Some (lat', e') \<Longrightarrow> e' + int (length lat') = e + int (length lat) + 1"
  by (auto simp: perform_request_def split: option.splits if_splits)

lemma gather_counts:
  "gather net t idxs (lat, e) = Some (lat', e') \<Longrightarrow>
   e' + int (length lat') = e + int (length lat) + int (length idxs)"
proof (induction idxs arbitrary: lat e)
  case Nil
  then show ?case by simp
next
  case (Cons i rest)
  from Cons.prems obtain lat1 e1 where s: "perform_request (net i) t (lat, e) = Some (lat1, e1)"
    and g: "gather net t rest (lat1, e1) = Some (lat', e')"
    by (auto split: option.splits)
  from perform_request_counts[OF s] Cons.IH[OF g] show ?case by simp
qed

lemma gather_returns:
  "(\<forall>i \<in> set idxs. one_request (net i) t \<noteq> None) \<Longrightarrow> \<exists>acc'. gather net t idxs acc = Some acc'"
proof (induction idxs arbitrary: acc)
  case Nil
  then show ?case by simp
next
  case (Cons i rest)
  then obtain d where d: "one_request (net i) t = Some d" by auto
  obtain lat e where acc: "acc = (lat, e)" by (cases acc)
  have "\<exists>acc1. perform_request (net i) t acc = Some acc1"
    by (simp add: perform_request_def d acc)
  then obtain acc1 where s: "perform_request (net i) t acc = Some acc1" by blast
  from Cons have "\<exists>acc'. gather net t rest acc1 = Some acc'" by simp
  with s show ?case by simp
qed

lemma successful_requests_summarize: "successful_requests (summarize_latencies l) = length l"
  by (simp add: summarize_latencies_def Let_def)

lemma closed_once_Returned:
  assumes "closed_once ok env url n c t = Returned r"
  shows "\<exists>lat e. gather (network env) t [0 ..< nat n] ([], 0) = Some (lat, e)
           \<and> errors r = e \<and> successful_requests r = length lat"
  using assms
  by (auto simp: closed_once_def Let_def successful_requests_summarize latency_stats.defs run_summary.defs
           split: sum.splits prod.splits if_splits option.splits)

text \<open>
  C6: for a closed-loop single run with requested total \<open>N\<close> (a count, so \<open>N \<ge> 0\<close>), the
  failure count plus the success count of the returned summary is exactly \<open>N\<close>; and the run
  does return a summary when the URL is accepted, the concurrency is at least 1 and every
  dispatched request returns.
\<close>

theorem closed_once_counts:
  "(0 \<le> n \<and> closed_once ok env url n c t = Returned r \<longrightarrow> errors r + int (successful_requests r) = n)
   \<and> (0 \<le> n \<and> 1 \<le> c \<and> (\<exists>target. build_http_get ok url = Inr target)
        \<and> (\<forall>i < nat n. one_request (network env i) t \<noteq> None)
      \<longrightarrow> (\<exists>r'. closed_once ok env url n c t = Returned r' \<and> errors r' + int (successful_requests r') = n))"
proof (intro conjI impI)
  assume a: "0 \<le> n \<and> closed_once ok env url n c t = Returned r"
  then obtain lat e where g: "gather (network env) t [0 ..< nat n] ([], 0) = Some (lat, e)"
    and r: "errors r = e" "successful_requests r = length lat"
    using closed_once_Returned by blast
  from gather_counts[OF g] a r show "errors r + int (successful_requests r) = n" by simp
next
  assume a: "0 \<le> n \<and> 1 \<le> c \<and> (\<exists>target. build_http_get ok url = Inr target)
        \<and> (\<forall>i < nat n. one_request (network env i) t \<noteq> None)"
  then obtain h p b where tg: "build_http_get ok url = Inr (h, p, b)" by (metis prod_cases3)
  from a have "\<forall>i \<in> set [0 ..< nat n]. one_request (network env i) t \<noteq> None" by simp
  from gather_returns[OF this] obtain lat e where
    g: "gather (network env) t [0 ..< nat n] ([], 0) = Some (lat, e)" by (metis surj_pair)
  let ?r = "latency_stats.extend (summarize_latencies lat)
              (run_summary.fields e (if measured_wall env > 0 then real (length lat) / measured_wall env else 0) (measured_wall env))"
  have ret: "closed_once ok env url n c t = Returned ?r"
    using a tg g by (simp add: closed_once_def Let_def successful_requests_summarize)
  have "errors ?r = e" "successful_requests ?r = length lat"
    by (simp_all add: latency_stats.defs run_summary.defs successful_requests_summarize)
  with gather_counts[OF g] a have "errors ?r + int (successful_requests ?r) = n" by simp
  with ret show "\<exists>r'. closed_once ok env url n c t = Returned r' \<and> errors r' + int (successful_requests r') = n"
    by blast
qed

lemma one_request_quick: "one_request quick_peer 2 = Some (3 / 100)"
  apply (simp add: one_request_def quick_peer_def wait_for_def)
  apply (subst read_until_eof.simps, simp add: wait_for_def)
  apply (subst read_until_eof.simps, simp add: wait_for_def)
  done

lemma one_request_silent: "one_request silent_peer 2 = Some (- 1)"
  apply (simp add: one_request_def silent_peer_def wait_for_def)
  apply (subst read_until_eof.simps, simp add: wait_for_def)
  apply (subst read_until_eof.simps, simp add: wait_for_def)
  apply (subst read_until_eof.simps, simp add: wait_for_def)
  done

lemma local_url_accepted:
  "build_http_get ok ''http://127.0.0.1:8000/'' =
     Inr (''127.0.0.1'', 8000, ''GET / HTTP/1.1'' @ crlf @ ''Host: 127.0.0.1:8000'' @ crlf @ ''Connection: close'' @ crlf @ crlf)"
  by (simp add: build_http_get_def urlparse_def strip_unsafe_def split_scheme_def partition_at_def
      ascii_letters_def scheme_chars_def lower_def lower_char_def splitnetloc_def uses_params_def
      hostname_def hostinfo_def after_last_def port_def ascii_digits_def digits_to_int_def
      isascii_def crlf_def Let_def)

theorem closed_once_counts_witness:
  "\<exists>r. closed_once (\<lambda>h. True) mixed_env ''http://127.0.0.1:8000/'' 4 2 2 = Returned r
       \<and> errors r + int (successful_requests r) = 4"
proof -
  have a: "\<exists>target. build_http_get (\<lambda>h. True) ''http://127.0.0.1:8000/'' = Inr target"
    using local_url_accepted by blast
  have q: "one_request quick_peer 2 \<noteq> None" using one_request_quick by simp
  have s: "one_request silent_peer 2 \<noteq> None" using one_request_silent by simp
  have b: "\<forall>i < nat 4. one_request (network mixed_env i) 2 \<noteq> None"
    using q s by (simp add: mixed_env_def)
  from closed_once_counts[of 4 "\<lambda>h. True" mixed_env "''http://127.0.0.1:8000/''" 2 2] a b
  show ?thesis by simp
qed

section \<open>The Request Builder's contract\<close>

lemmas url_defs = build_http_get_def urlparse_def strip_unsafe_def split_scheme_def partition_at_def
      ascii_letters_def scheme_chars_def lower_def lower_char_def splitnetloc_def uses_params_def
      hostname_def hostinfo_def after_last_def port_def ascii_digits_def digits_to_int_def
      isascii_def crlf_def Let_def splitparams_def

lemma build_http_get_cases:
  "build_http_get ok url =
     (case urlparse ok url of
        Inl e \<Rightarrow> Inl e
      | Inr p \<Rightarrow>
          if scheme p \<noteq> [] \<and> lower (scheme p) \<noteq> ''http'' then Inl (ValueError ''Only plain HTTP is supported'')
          else (case port p of
                  Inl e \<Rightarrow> Inl e
                | Inr n \<Rightarrow> if isascii (request_text p (host_or_default p))
                           then Inr (host_or_default p, port_or_default n, request_text p (host_or_default p))
                           else Inl UnicodeEncodeError))"
  by (simp add: build_http_get_def request_text_def host_or_default_def port_or_default_def Let_def
           split: sum.splits option.splits)

lemma port_not_scheme_error: "port p \<noteq> Inl (ValueError ''Only plain HTTP is supported'')"
  by (simp add: port_def split: option.splits)

lemma urlparse_not_scheme_error: "urlparse ok url \<noteq> Inl (ValueError ''Only plain HTTP is supported'')"
  by (simp add: urlparse_def Let_def split: prod.splits)

text \<open>
  C8, amended: the Request Builder fails with the unsupported-scheme error (\<^verbatim>\<open>ValueError\<close>,
  "Only plain HTTP is supported") exactly when the parsed URL has a scheme that is not
  \<open>http\<close>; the failure is fatal and comes before any request is issued, whatever the
  network would do. A URL whose scheme is absent or is \<open>http\<close> is accepted exactly when,
  besides, the URL parses, its port text is absent or a decimal number in 0..65535, and the
  request is ASCII; otherwise another error of the parser or the encoder is raised.
\<close>

theorem scheme_error_iff:
  "(build_http_get ok url = Inl (ValueError ''Only plain HTTP is supported'')
      \<longleftrightarrow> (\<exists>p. urlparse ok url = Inr p \<and> scheme p \<noteq> [] \<and> lower (scheme p) \<noteq> ''http''))
   \<and> ((\<exists>target. build_http_get ok url = Inr target)
      \<longleftrightarrow> (\<exists>p n. urlparse ok url = Inr p \<and> (scheme p = [] \<or> lower (scheme p) = ''http'')
                \<and> port p = Inr n \<and> isascii (request_text p (host_or_default p))))
   \<and> (build_http_get ok url = Inl e \<longrightarrow> closed_once ok env url n c t = Raised e)"
proof (intro conjI)
  show "build_http_get ok url = Inl (ValueError ''Only plain HTTP is supported'')
      \<longleftrightarrow> (\<exists>p. urlparse ok url = Inr p \<and> scheme p \<noteq> [] \<and> lower (scheme p) \<noteq> ''http'')"
    using urlparse_not_scheme_error[of ok url] port_not_scheme_error
    by (auto simp: build_http_get_cases split: sum.splits if_splits)
  show "(\<exists>target. build_http_get ok url = Inr target)
      \<longleftrightarrow> (\<exists>p n. urlparse ok url = Inr p \<and> (scheme p = [] \<or> lower (scheme p) = ''http'')
                \<and> port p = Inr n \<and> isascii (request_text p (host_or_default p)))"
    by (auto simp: build_http_get_cases split: sum.splits if_splits)
  show "build_http_get ok url = Inl e \<longrightarrow> closed_once ok env url n c t = Raised e"
    by (simp add: closed_once_def)
qed

lemma strip_unsafe_http:
  "strip_unsafe (''http://'' @ a @ r) = ''http://'' @ without_tab_cr_lf a @ without_tab_cr_lf r"
  by (simp add: strip_unsafe_def without_tab_cr_lf_def)

lemma split_scheme_http: "split_scheme (''http://'' @ rest) = (''http'', ''//'' @ rest)"
  by (simp add: split_scheme_def partition_at_def ascii_letters_def scheme_chars_def lower_def lower_char_def)

lemma splitnetloc_authority:
  assumes "no_delimiter a" "r = [] \<or> hd r \<in> set ''/?#''"
  shows "splitnetloc (''//'' @ a @ r) = (a, r)"
proof -
  have a: "\<forall>c \<in> set a. c \<notin> set ''/?#''" using assms(1) by (auto simp: no_delimiter_def list_all_iff)
  have t: "takeWhile (\<lambda>c. c \<notin> set ''/?#'') r = []" using assms(2) by (cases r) auto
  have d: "dropWhile (\<lambda>c. c \<notin> set ''/?#'') r = r" using assms(2) by (cases r) auto
  have "takeWhile (\<lambda>c. c \<notin> set ''/?#'') (a @ r) = a"
    using a t by (simp add: takeWhile_append2)
  moreover have "dropWhile (\<lambda>c. c \<notin> set ''/?#'') (a @ r) = r"
    using a d by (simp add: dropWhile_append2)
  ultimately show ?thesis by (simp add: splitnetloc_def)
qed

lemma no_delimiter_without: "no_delimiter a \<Longrightarrow> no_delimiter (without_tab_cr_lf a)"
  by (simp add: no_delimiter_def without_tab_cr_lf_def list_all_iff)

lemma without_keeps_delimiter:
  assumes "r = [] \<or> hd r \<in> set ''/?#''"
  shows "without_tab_cr_lf r = [] \<or> hd (without_tab_cr_lf r) \<in> set ''/?#''"
  using assms by (cases r) (auto simp: without_tab_cr_lf_def)

lemma urlparse_http_authority:
  assumes "no_delimiter a" "r = [] \<or> hd r \<in> set ''/?#''"
    and "urlparse ok (''http://'' @ a @ r) = Inr p"
  shows "scheme p = ''http'' \<and> netloc p = without_tab_cr_lf a \<and> (r = [] \<longrightarrow> path p = [] \<and> query p = [])"
proof -
  let ?a = "without_tab_cr_lf a" and ?r = "without_tab_cr_lf r"
  have s: "split_scheme (strip_unsafe (''http://'' @ a @ r)) = (''http'', ''//'' @ ?a @ ?r)"
    using strip_unsafe_http[of a r] split_scheme_http[of "?a @ ?r"] by simp
  have n: "splitnetloc (CHR ''/'' # CHR ''/'' # ?a @ ?r) = (?a, ?r)"
    using splitnetloc_authority[OF no_delimiter_without[OF assms(1)] without_keeps_delimiter[OF assms(2)]]
    by simp
  have e: "without_tab_cr_lf [] = []" by (simp add: without_tab_cr_lf_def)
  from assms(3) show ?thesis
    unfolding urlparse_def s
    by (auto simp: n e Let_def partition_at_def split: prod.splits if_splits)
qed

lemma no_colon_no_port:
  assumes "CHR '':'' \<notin> set (netloc p)"
  shows "port p = Inr None"
proof -
  have d: "\<And>xs. CHR '':'' \<notin> set xs \<Longrightarrow> drop 1 (dropWhile (\<lambda>c. c \<noteq> CHR '':'') xs) = []"
  proof -
    fix xs :: string
    assume "CHR '':'' \<notin> set xs"
    then have "dropWhile (\<lambda>c. c \<noteq> CHR '':'') xs = []" by (auto simp: dropWhile_eq_Nil_conv)
    then show "drop 1 (dropWhile (\<lambda>c. c \<noteq> CHR '':'') xs) = []" by (metis drop_Nil)
  qed
  let ?info = "after_last CHR ''@'' (netloc p)"
  have i: "CHR '':'' \<notin> set ?info"
    using assms by (auto simp: after_last_def dest: set_takeWhileD)
  let ?after = "drop 1 (dropWhile (\<lambda>c. c \<noteq> CHR '']'') (drop 1 (dropWhile (\<lambda>c. c \<noteq> CHR ''['') ?info)))"
  have "set ?after \<subseteq> set ?info"
    by (meson set_drop_subset set_dropWhileD subsetI subset_trans in_set_dropD)
  with i have j: "CHR '':'' \<notin> set ?after" by blast
  have "snd (hostinfo p) = None"
    using d[OF i] d[OF j] by (simp add: hostinfo_def partition_at_def Let_def)
  then show ?thesis by (simp add: port_def)
qed

lemma empty_netloc_no_hostname: "netloc p = [] \<Longrightarrow> hostname p = None"
  by (simp add: hostname_def hostinfo_def after_last_def partition_at_def)

lemma isascii_append: "isascii (a @ b) \<longleftrightarrow> isascii a \<and> isascii b"
  by (simp add: isascii_def)

lemma isascii_request_text:
  "isascii (request_text p h) \<longleftrightarrow>
     isascii (path p) \<and> isascii (query p) \<and> isascii (if netloc p = [] then h else netloc p)"
  by (simp add: request_text_def isascii_append) (auto simp: isascii_def crlf_def)

text \<open>
  C8, as the claim states it, fails: a URL whose scheme is \<open>http\<close> is not always accepted.
  For \<open>http://host:99999/\<close> the scheme is \<open>http\<close> and the builder fails with the
  \<^verbatim>\<open>ValueError\<close> of the \<^verbatim>\<open>port\<close> property.
\<close>

theorem http_bad_port_counterexample:
  "map_sum id scheme (urlparse accept_all ''http://host:99999/'') = Inr ''http''
   \<and> build_http_get accept_all ''http://host:99999/'' = Inl (ValueError ''Port out of range 0-65535'')"
  by (simp add: url_defs)

theorem scheme_error_iff_witness:
  "build_http_get accept_all ''https://host/'' = Inl (ValueError ''Only plain HTTP is supported'')
   \<and> closed_once accept_all refusing_env ''https://host/'' 10 2 5 = Raised (ValueError ''Only plain HTTP is supported'')"
proof -
  have p: "\<exists>p. urlparse accept_all ''https://host/'' = Inr p \<and> scheme p \<noteq> [] \<and> lower (scheme p) \<noteq> ''http''"
    by (simp add: url_defs)
  from scheme_error_iff[of accept_all "''https://host/''" "ValueError ''Only plain HTTP is supported''" refusing_env 10 2 5] p
  show ?thesis by blast
qed

text \<open>
  C7, as the claim states it, fails where the authority holds a tab, a CR or a LF:
  \<^verbatim>\<open>urlsplit\<close> removes them from the URL before it looks for the authority. For
  \<open>http://h<TAB>ost/p\<close> the authority as given is \<open>h<TAB>ost\<close> and the Host header is
  \<open>host\<close>.
\<close>

theorem host_header_tab_counterexample:
  "build_http_get accept_all tabbed_url =
     Inr (''host'', 80, ''GET /p HTTP/1.1'' @ crlf @ ''Host: host'' @ crlf @ ''Connection: close'' @ crlf @ crlf)
   \<and> tabbed_url = ''http://'' @ (''h'' @ [CHR 0x09] @ ''ost'') @ ''/p''
   \<and> ''h'' @ [CHR 0x09] @ ''ost'' \<noteq> ''host''"
  by (simp add: tabbed_url_def url_defs)

text \<open>
  C7, amended: building a Target from \<open>http://host:8080/p?q=1\<close> gives host \<open>host\<close>, port
  8080 and the request \<open>GET /p?q=1 HTTP/1.1\<close>, \<open>Host: host:8080\<close>, \<open>Connection: close\<close>. More
  generally, for every URL \<open>http://\<close> + authority + rest that the builder accepts (the
  authority any text without \<open>/?#\<close>, brackets and user information included, the rest
  empty or starting with one of \<open>/?#\<close>), the Host header is the authority as given with its
  tabs, CRs and LFs removed, and the default host \<open>127.0.0.1\<close> when nothing is left of it;
  the port is 80 when the authority has no colon; and the request path is \<open>/\<close> when the rest
  is absent. For every URL that the builder accepts at all, the request line carries the
  parsed path, \<open>/\<close> when it is empty, and the query after \<open>?\<close> when there is one; the Host
  header is the parsed authority, or the host when there is none; and the port is 80 when
  the URL gives none.
\<close>

theorem build_http_get_request:
  "build_http_get ok ''http://host:8080/p?q=1'' =
     Inr (''host'', 8080, ''GET /p?q=1 HTTP/1.1'' @ crlf @ ''Host: host:8080'' @ crlf @ ''Connection: close'' @ crlf @ crlf)
   \<and> (no_delimiter a \<and> (r = [] \<or> hd r \<in> set ''/?#'')
        \<and> build_http_get ok (''http://'' @ a @ r) = Inr (host', prt', req') \<longrightarrow>
        (\<exists>target. req' = ''GET '' @ target @ '' HTTP/1.1'' @ crlf
                          @ ''Host: '' @ (if without_tab_cr_lf a = [] then ''127.0.0.1'' else without_tab_cr_lf a) @ crlf
                          @ ''Connection: close'' @ crlf @ crlf
                  \<and> (r = [] \<longrightarrow> target = ''/'')
                  \<and> (CHR '':'' \<notin> set a \<longrightarrow> prt' = 80)))
   \<and> (build_http_get ok url = Inr (host, prt, req) \<longrightarrow>
        (\<exists>p n. urlparse ok url = Inr p \<and> port p = Inr n
           \<and> req = ''GET '' @ (if path p = [] then ''/'' else path p)
                   @ (if query p = [] then [] else ''?'' @ query p) @ '' HTTP/1.1'' @ crlf
                   @ ''Host: '' @ (if netloc p = [] then host else netloc p) @ crlf
                   @ ''Connection: close'' @ crlf @ crlf
           \<and> prt = (case n of None \<Rightarrow> 80 | Some k \<Rightarrow> if k = 0 then 80 else k)
           \<and> host = (case hostname p of None \<Rightarrow> ''127.0.0.1'' | Some h \<Rightarrow> h)))"
proof (intro conjI impI)
  show "build_http_get ok ''http://host:8080/p?q=1'' =
     Inr (''host'', 8080, ''GET /p?q=1 HTTP/1.1'' @ crlf @ ''Host: host:8080'' @ crlf @ ''Connection: close'' @ crlf @ crlf)"
    by (simp add: url_defs)
next
  assume "build_http_get ok url = Inr (host, prt, req)"
  then show "\<exists>p n. urlparse ok url = Inr p \<and> port p = Inr n
           \<and> req = ''GET '' @ (if path p = [] then ''/'' else path p)
                   @ (if query p = [] then [] else ''?'' @ query p) @ '' HTTP/1.1'' @ crlf
                   @ ''Host: '' @ (if netloc p = [] then host else netloc p) @ crlf
                   @ ''Connection: close'' @ crlf @ crlf
           \<and> prt = (case n of None \<Rightarrow> 80 | Some k \<Rightarrow> if k = 0 then 80 else k)
           \<and> host = (case hostname p of None \<Rightarrow> ''127.0.0.1'' | Some h \<Rightarrow> h)"
    by (auto simp: build_http_get_cases request_text_def host_or_default_def port_or_default_def
             split: sum.splits if_splits)
next
  assume a: "no_delimiter a \<and> (r = [] \<or> hd r \<in> set ''/?#'')
        \<and> build_http_get ok (''http://'' @ a @ r) = Inr (host', prt', req')"
  then obtain p n where p: "urlparse ok (''http://'' @ a @ r) = Inr p" and n: "port p = Inr n"
    and req: "req' = request_text p (host_or_default p)" and prt: "prt' = port_or_default n"
    by (auto simp: build_http_get_cases split: sum.splits if_splits)
  from urlparse_http_authority[OF _ _ p, of ] a
  have f: "netloc p = without_tab_cr_lf a" "r = [] \<longrightarrow> path p = [] \<and> query p = []"
    by blast+
  let ?target = "(if path p = [] then ''/'' else path p) @ (if query p = [] then [] else ''?'' @ query p)"
  have h: "without_tab_cr_lf a = [] \<Longrightarrow> host_or_default p = ''127.0.0.1''"
    using f(1) empty_netloc_no_hostname[of p] by (simp add: host_or_default_def)
  have 1: "req' = ''GET '' @ ?target @ '' HTTP/1.1'' @ crlf
                          @ ''Host: '' @ (if without_tab_cr_lf a = [] then ''127.0.0.1'' else without_tab_cr_lf a) @ crlf
                          @ ''Connection: close'' @ crlf @ crlf"
    using req f(1) h by (simp add: request_text_def)
  have 2: "r = [] \<longrightarrow> ?target = ''/''" using f(2) by simp
  have 3: "CHR '':'' \<notin> set a \<longrightarrow> prt' = 80"
  proof
    assume "CHR '':'' \<notin> set a"
    then have "CHR '':'' \<notin> set (netloc p)" by (simp add: f(1) without_tab_cr_lf_def)
    from no_colon_no_port[OF this] n have "n = None" by simp
    with prt show "prt' = 80" by (simp add: port_or_default_def)
  qed
  from 1 2 3 show "\<exists>target. req' = ''GET '' @ target @ '' HTTP/1.1'' @ crlf
                          @ ''Host: '' @ (if without_tab_cr_lf a = [] then ''127.0.0.1'' else without_tab_cr_lf a) @ crlf
                          @ ''Connection: close'' @ crlf @ crlf
                  \<and> (r = [] \<longrightarrow> target = ''/'')
                  \<and> (CHR '':'' \<notin> set a \<longrightarrow> prt' = 80)"
    by blast
qed

lemma bracketed_url_accepted:
  "build_http_get accept_all ''http://[::1]'' =
     Inr (''::1'', 80, ''GET / HTTP/1.1'' @ crlf @ ''Host: [::1]'' @ crlf @ ''Connection: close'' @ crlf @ crlf)"
  by (simp add: url_defs accept_all_def)

theorem build_http_get_request_witness:
  "build_http_get accept_all ''http://host:8080/p?q=1'' =
     Inr (''host'', 8080, ''GET /p?q=1 HTTP/1.1'' @ crlf @ ''Host: host:8080'' @ crlf @ ''Connection: close'' @ crlf @ crlf)
   \<and> (\<exists>target. ''GET / HTTP/1.1'' @ crlf @ ''Host: [::1]'' @ crlf @ ''Connection: close'' @ crlf @ crlf
               = ''GET '' @ target @ '' HTTP/1.1'' @ crlf @ ''Host: '' @ ''[::1]'' @ crlf
                          @ ''Connection: close'' @ crlf @ crlf
               \<and> target = ''/'')"
proof -
  let ?req = "''GET / HTTP/1.1'' @ crlf @ ''Host: [::1]'' @ crlf @ ''Connection: close'' @ crlf @ crlf"
  note t = build_http_get_request[where ?ok = accept_all and ?a = "''[::1]''" and ?r = "[]"
             and ?host' = "''::1''" and ?prt' = 80 and ?req' = ?req]
  have e: "build_http_get accept_all ''http://host:8080/p?q=1'' =
     Inr (''host'', 8080, ''GET /p?q=1 HTTP/1.1'' @ crlf @ ''Host: host:8080'' @ crlf @ ''Connection: close'' @ crlf @ crlf)"
    using t by blast
  have h: "no_delimiter ''[::1]'' \<and> (([] :: string) = [] \<or> hd ([] :: string) \<in> set ''/?#'')"
    by (simp add: no_delimiter_def)
  have b: "build_http_get accept_all (''http://'' @ ''[::1]'' @ []) = Inr (''::1'', 80, ?req)"
    using bracketed_url_accepted by simp
  have w: "without_tab_cr_lf ''[::1]'' = ''[::1]''" by (simp add: without_tab_cr_lf_def)
  from t h b have "\<exists>target. ?req = ''GET '' @ target @ '' HTTP/1.1'' @ crlf
                          @ ''Host: '' @ (if without_tab_cr_lf ''[::1]'' = [] then ''127.0.0.1'' else without_tab_cr_lf ''[::1]'') @ crlf
                          @ ''Connection: close'' @ crlf @ crlf
                  \<and> (([] :: string) = [] \<longrightarrow> target = ''/'')
                  \<and> (CHR '':'' \<notin> set ''[::1]'' \<longrightarrow> (80 :: int) = 80)"
    by blast
  then have x: "\<exists>target. ?req = ''GET '' @ target @ '' HTTP/1.1'' @ crlf @ ''Host: '' @ ''[::1]'' @ crlf
                          @ ''Connection: close'' @ crlf @ crlf \<and> target = ''/''"
    unfolding w by simp
  from e x show ?thesis by blast
qed

text \<open>
  C10, as the claim states it, fails: \<open>ftp:/p\<close> has no hostname component, and the builder
  fails on it, since its scheme is not \<open>http\<close>.
\<close>

theorem no_hostname_counterexample:
  "map_sum id hostname (urlparse accept_all ''ftp:/p'') = Inr None
   \<and> build_http_get accept_all ''ftp:/p'' = Inl (ValueError ''Only plain HTTP is supported'')"
  by (simp add: url_defs)

text \<open>
  C10, amended: for every URL string with no hostname component whose scheme is absent or
  \<open>http\<close>, whose port text is absent or valid, and whose path, query and authority are ASCII
  (the empty string and the bare path \<open>/p\<close> are such), the Request Builder does not fail:
  it returns a Target with host \<open>127.0.0.1\<close> and, when no port is given, port 80. And
  whenever the builder accepts a URL with no hostname, the host is \<open>127.0.0.1\<close>.
\<close>

theorem no_hostname_defaults:
  "(urlparse ok url = Inr p \<and> hostname p = None \<and> (scheme p = [] \<or> lower (scheme p) = ''http'')
      \<and> port p = Inr n \<and> isascii (path p) \<and> isascii (query p) \<and> isascii (netloc p)
     \<longrightarrow> (\<exists>req. build_http_get ok url =
                 Inr (''127.0.0.1'', (case n of None \<Rightarrow> 80 | Some k \<Rightarrow> if k = 0 then 80 else k), req)))
   \<and> (urlparse ok url = Inr p \<and> hostname p = None \<and> build_http_get ok url = Inr (host, prt, req')
     \<longrightarrow> host = ''127.0.0.1'' \<and> (port p = Inr None \<longrightarrow> prt = 80))
   \<and> (\<exists>req. build_http_get ok [] = Inr (''127.0.0.1'', 80, req))
   \<and> (\<exists>req. build_http_get ok ''/p'' = Inr (''127.0.0.1'', 80, req))"
proof (intro conjI impI)
  assume a: "urlparse ok url = Inr p \<and> hostname p = None \<and> (scheme p = [] \<or> lower (scheme p) = ''http'')
      \<and> port p = Inr n \<and> isascii (path p) \<and> isascii (query p) \<and> isascii (netloc p)"
  then have h: "host_or_default p = ''127.0.0.1''" by (simp add: host_or_default_def)
  have "isascii ''127.0.0.1''" by (simp add: isascii_def)
  with a have "isascii (request_text p ''127.0.0.1'')" by (simp add: isascii_request_text)
  with a h show "\<exists>req. build_http_get ok url =
                 Inr (''127.0.0.1'', (case n of None \<Rightarrow> 80 | Some k \<Rightarrow> if k = 0 then 80 else k), req)"
    by (auto simp: build_http_get_cases port_or_default_def)
next
  assume a: "urlparse ok url = Inr p \<and> hostname p = None \<and> build_http_get ok url = Inr (host, prt, req')"
  then show "host = ''127.0.0.1''"
    by (auto simp: build_http_get_cases host_or_default_def split: sum.splits if_splits)
  assume "port p = Inr None"
  with a show "prt = 80"
    by (auto simp: build_http_get_cases port_or_default_def split: sum.splits if_splits)
next
  show "\<exists>req. build_http_get ok [] = Inr (''127.0.0.1'', 80, req)" by (simp add: url_defs)
  show "\<exists>req. build_http_get ok ''/p'' = Inr (''127.0.0.1'', 80, req)" by (simp add: url_defs)
qed

theorem no_hostname_defaults_witness:
  "\<exists>req. build_http_get accept_all ''http://:8080/p'' = Inr (''127.0.0.1'', 8080, req)"
proof -
  let ?p = "\<lparr> scheme = ''http'', netloc = '':8080'', path = ''/p'', params = [], query = [], fragment = [] \<rparr>"
  have a: "urlparse accept_all ''http://:8080/p'' = Inr ?p" by (simp add: url_defs)
  have b: "hostname ?p = None" by (simp add: url_defs)
  have c: "port ?p = Inr (Some 8080)" by (simp add: url_defs)
  have d: "lower (scheme ?p) = ''http''" by (simp add: url_defs)
  have e: "isascii (path ?p) \<and> isascii (query ?p) \<and> isascii (netloc ?p)" by (simp add: isascii_def)
  from no_hostname_defaults[of accept_all "''http://:8080/p''" ?p "Some 8080"] a b c d e
  show ?thesis by simp
qed

section \<open>The bounds of an open-loop run\<close>

lemma open_inv_start: "open_start ok url p = Inr s \<Longrightarrow> open_inv p s"
  by (auto simp: open_start_def open_inv_def split: sum.splits if_splits)

lemma finite_parts:
  assumes "open_inv p s"
  shows "finite (waiting s)" "finite (executing s)" "finite (finished s)"
proof -
  from assms have "waiting s \<union> executing s \<union> finished s = {0 ..< created s}" by (simp add: open_inv_def)
  then have "finite (waiting s \<union> executing s \<union> finished s)" by simp
  then show "finite (waiting s)" "finite (executing s)" "finite (finished s)" by auto
qed

lemma open_inv_step:
  assumes "open_inv p s" "open_step p s e = Some s'"
  shows "open_inv p s'"
proof (cases e)
  case (Dispatch now)
  with assms(2) have g: "phase s = Dispatching" "int (card (in_flight_tasks s)) < 4 * cap p"
    and s': "s' = s\<lparr> in_flight_tasks := insert (created s) (in_flight_tasks s),
                    waiting := insert (created s) (waiting s),
                    created := Suc (created s),
                    next_scheduled_time := next_scheduled_time s + schedule_interval_seconds p \<rparr>"
    by (auto simp: may_dispatch_def split: if_splits)
  from assms(1) have fresh: "created s \<notin> in_flight_tasks s" "created s \<notin> waiting s"
    "created s \<notin> executing s" "created s \<notin> finished s"
    unfolding open_inv_def by auto
  have "{0 ..< Suc (created s)} = insert (created s) {0 ..< created s}" by auto
  with assms(1) g fresh show ?thesis
    unfolding open_inv_def s' by (auto simp: card_insert_if)
next
  case (Sleep now)
  with assms show ?thesis by (auto split: if_splits)
next
  case (Break now)
  with assms show ?thesis by (auto simp: open_inv_def split: if_splits)
next
  case (Acquire i)
  with assms(2) have g: "i \<in> waiting s" "0 < semaphore_value s"
    and s': "s' = s\<lparr> waiting := waiting s - {i}, executing := insert i (executing s),
                    semaphore_value := semaphore_value s - 1 \<rparr>"
    by (auto split: if_splits)
  from assms(1) g have ni: "i \<notin> executing s" "i \<notin> finished s" unfolding open_inv_def by auto
  note fin = finite_parts[OF assms(1)]
  have c: "card (insert i (executing s)) = Suc (card (executing s))" using ni fin by simp
  from assms(1) g ni show ?thesis
    unfolding open_inv_def s' by (auto simp: c)
next
  case (Finish i conn)
  with assms(2) obtain d where g: "i \<in> executing s" "one_request conn (request_timeout p) = Some d"
    and s': "s' = s\<lparr> executing := executing s - {i}, finished := insert i (finished s),
                         semaphore_value := semaphore_value s + 1,
                         latencies := (if d < 0 then latencies s else latencies s @ [d]),
                         error_count := (if d < 0 then error_count s + 1 else error_count s) \<rparr>"
    by (auto split: if_splits option.splits)
  from assms(1) g have ni: "i \<notin> waiting s" "i \<notin> finished s" unfolding open_inv_def by auto
  note fin = finite_parts[OF assms(1)]
  have c: "card (executing s - {i}) = card (executing s) - 1" "0 < card (executing s)"
    using g fin by (auto simp: card_gt_0_iff)
  have cf: "card (insert i (finished s)) = Suc (card (finished s))" using ni fin by simp
  from assms(1) g(1) ni have ph: "phase s \<noteq> Summarized" unfolding open_inv_def by auto
  from assms(1) g(1) ni c cf ph show ?thesis
    unfolding open_inv_def s' by (auto simp: of_nat_diff)
next
  case (Discard i)
  with assms(2) have g: "i \<in> finished s" "i \<in> in_flight_tasks s"
    and s': "s' = s\<lparr> in_flight_tasks := in_flight_tasks s - {i} \<rparr>"
    by (auto split: if_splits)
  from assms(1) g have ni: "i \<notin> waiting s" "i \<notin> executing s" unfolding open_inv_def by auto
  have "card (in_flight_tasks s - {i}) \<le> card (in_flight_tasks s)"
    using assms(1) by (simp add: open_inv_def card_Diff1_le)
  with assms(1) ni show ?thesis
    unfolding open_inv_def s' by auto
next
  case (Summarize now)
  with assms(2) have g: "phase s = Draining" "gathered s \<subseteq> finished s"
    and s': "phase s' = Summarized" "waiting s' = waiting s" "executing s' = executing s"
      "finished s' = finished s" "in_flight_tasks s' = in_flight_tasks s" "created s' = created s"
      "semaphore_value s' = semaphore_value s" "gathered s' = gathered s"
      "latencies s' = latencies s" "error_count s' = error_count s"
      "\<exists>r. summary s' = Some r \<and> errors r = error_count s \<and> successful_requests r = length (latencies s)"
    by (auto simp: Let_def latency_stats.defs run_summary.defs summarize_latencies_def split: if_splits)
  from assms(1) g have "waiting s \<union> executing s = {}" unfolding open_inv_def by auto
  with assms(1) g s' show ?thesis
    unfolding open_inv_def by auto
qed

lemma open_inv_run:
  "open_inv p s \<Longrightarrow> run_events p s evs = Some s' \<Longrightarrow> open_inv p s'"
proof (induction evs arbitrary: s)
  case Nil
  then show ?case by simp
next
  case (Cons e es)
  from Cons.prems(2) obtain s1 where s1: "open_step p s e = Some s1" "run_events p s1 es = Some s'"
    by (auto split: option.splits)
  from open_inv_step[OF Cons.prems(1) s1(1)] Cons.IH s1(2) show ?case by blast
qed

lemma outstanding_le_in_flight:
  assumes "open_inv p s"
  shows "int (card (waiting s \<union> executing s)) \<le> 4 * cap p"
proof -
  from assms have "waiting s \<union> executing s \<subseteq> in_flight_tasks s" "finite (in_flight_tasks s)"
    by (simp_all add: open_inv_def)
  then have "card (waiting s \<union> executing s) \<le> card (in_flight_tasks s)" by (simp add: card_mono)
  with assms show ?thesis by (simp add: open_inv_def)
qed

lemma outstanding_eq:
  assumes "open_inv p s"
  shows "waiting s \<union> executing s = {0 ..< created s} - finished s"
proof -
  from assms have a: "waiting s \<union> executing s \<union> finished s = {0 ..< created s}"
    "waiting s \<inter> finished s = {}" "executing s \<inter> finished s = {}"
    by (simp_all add: open_inv_def)
  then show ?thesis by blast
qed

text \<open>
  C9: in every open-loop run, after every sequence of events, the requests outstanding
  (dispatched and not completed: waiting for the semaphore or executing) are at most
  \<open>4 \<times> concurrency_cap\<close>, and the requests executing a network operation are at most
  \<open>concurrency_cap\<close>; and once the summary is computed every dispatched request has
  completed, so that its error count and success count add up to the requests dispatched.
\<close>

theorem open_loop_bounds:
  "open_start ok url p = Inr s0 \<and> run_events p s0 evs = Some s \<longrightarrow>
     int (card (waiting s \<union> executing s)) \<le> 4 * cap p
   \<and> int (card (executing s)) \<le> cap p
   \<and> waiting s \<union> executing s = {0 ..< created s} - finished s
   \<and> (summary s \<noteq> None \<longrightarrow> finished s = {0 ..< created s})
   \<and> (\<forall>r. summary s = Some r \<longrightarrow> errors r + int (successful_requests r) = int (created s))"
proof
  assume a: "open_start ok url p = Inr s0 \<and> run_events p s0 evs = Some s"
  then have inv: "open_inv p s" using open_inv_start open_inv_run by blast
  have 1: "int (card (waiting s \<union> executing s)) \<le> 4 * cap p" using outstanding_le_in_flight[OF inv] .
  have 2: "int (card (executing s)) \<le> cap p" using inv by (simp add: open_inv_def)
  have 3: "waiting s \<union> executing s = {0 ..< created s} - finished s" using outstanding_eq[OF inv] .
  have 4: "summary s \<noteq> None \<longrightarrow> finished s = {0 ..< created s}"
  proof
    assume "summary s \<noteq> None"
    with inv have "waiting s \<union> executing s = {}" by (simp add: open_inv_def)
    moreover from inv have "waiting s \<union> executing s \<union> finished s = {0 ..< created s}"
      by (simp add: open_inv_def)
    ultimately show "finished s = {0 ..< created s}" by simp
  qed
  have 5: "\<forall>r. summary s = Some r \<longrightarrow> errors r + int (successful_requests r) = int (created s)"
  proof (intro allI impI)
    fix r assume r: "summary s = Some r"
    with 4 have f: "finished s = {0 ..< created s}" by simp
    from inv r have "errors r = error_count s" "successful_requests r = length (latencies s)"
      by (simp_all add: open_inv_def)
    moreover from inv have "error_count s + int (length (latencies s)) = int (card (finished s))"
      by (simp add: open_inv_def)
    ultimately show "errors r + int (successful_requests r) = int (created s)" using f by simp
  qed
  from 1 2 3 4 5 show "int (card (waiting s \<union> executing s)) \<le> 4 * cap p
   \<and> int (card (executing s)) \<le> cap p
   \<and> waiting s \<union> executing s = {0 ..< created s} - finished s
   \<and> (summary s \<noteq> None \<longrightarrow> finished s = {0 ..< created s})
   \<and> (\<forall>r. summary s = Some r \<longrightarrow> errors r + int (successful_requests r) = int (created s))"
    by blast
qed

lemma demo_start:
  "\<exists>s0. open_start accept_all ''http://127.0.0.1:8000/'' demo_params = Inr s0
     \<and> run_events demo_params s0 demo_events \<noteq> None
     \<and> (\<forall>s. run_events demo_params s0 demo_events = Some s \<longrightarrow> created s = 2 \<and> summary s \<noteq> None)"
  by (simp add: open_start_def local_url_accepted demo_params_def demo_events_def may_dispatch_def
      schedule_interval_seconds_def one_request_quick one_request_silent Let_def)

theorem open_loop_bounds_witness:
  "\<exists>s0 s. open_start accept_all ''http://127.0.0.1:8000/'' demo_params = Inr s0
     \<and> run_events demo_params s0 demo_events = Some s
     \<and> finished s = {0 ..< 2} \<and> int (card (executing s)) \<le> 1"
proof -
  from demo_start obtain s0 s where a: "open_start accept_all ''http://127.0.0.1:8000/'' demo_params = Inr s0"
    "run_events demo_params s0 demo_events = Some s" "created s = 2" "summary s \<noteq> None"
    by blast
  from open_loop_bounds[of accept_all "''http://127.0.0.1:8000/''" demo_params s0 demo_events s] a
  have "finished s = {0 ..< 2} \<and> int (card (executing s)) \<le> 1"
    by (simp add: demo_params_def)
  with a show ?thesis by blast
qed

end
